theory Spec2Isabelle
  imports
    Main
    "HOL-Library.Char_ord"
    "HOL-Library.List_Lexorder"
    "HOL-Library.Option_ord"
    "HOL-Library.Product_Lexorder"
    "HOL-Library.AList"
    "HOL-Library.Multiset"
begin

section \<open>Text values and timestamps\<close>

text \<open>
  The store of \<^verbatim>\<open>cdn_manager.py\<close> is an SQLite file. A TEXT value is a byte string
  (\<^typ>\<open>string\<close>), compared by the BINARY collation: byte by byte, a proper prefix
  first. That is the order \<open><\<close> on \<^typ>\<open>string\<close> given by the lexicographic order on
  lists over the order on characters by code; a NULL is \<^term>\<open>None\<close>, below every text.
\<close>

subsection \<open>Decimal fields\<close>

definition digit :: "nat \<Rightarrow> char" where
  "digit d = char_of (48 + d)"

fun dec :: "nat \<Rightarrow> string" where
  "dec n = (if n < 10 then [digit n] else dec (n div 10) @ [digit (n mod 10)])"

declare dec.simps [simp del]

text \<open>The conversion \<^verbatim>\<open>%0wd\<close> of a non-negative integer: at least \<open>w\<close> digits.\<close>

definition zpad :: "nat \<Rightarrow> nat \<Rightarrow> string" where
  "zpad w n = replicate (w - length (dec n)) (CHR ''0'') @ dec n"

subsection \<open>Python's \<^verbatim>\<open>datetime.now().isoformat()\<close>\<close>

record datetime =
  year :: nat
  month :: nat
  day :: nat
  hour :: nat
  minute :: nat
  second :: nat
  microsecond :: nat

definition isoformat :: "datetime \<Rightarrow> string" where
  "isoformat dt =
     zpad 4 (year dt) @ ''-'' @ zpad 2 (month dt) @ ''-'' @ zpad 2 (day dt) @ ''T'' @
     zpad 2 (hour dt) @ '':'' @ zpad 2 (minute dt) @ '':'' @ zpad 2 (second dt) @
     (if microsecond dt = 0 then [] else ''.'' @ zpad 6 (microsecond dt))"

subsection \<open>SQLite's \<^verbatim>\<open>CURRENT_TIMESTAMP\<close> and \<^verbatim>\<open>datetime('now','-1 day')\<close>\<close>

text \<open>
  SQLite's clock is an instant of UTC, here in whole seconds since 1970-01-01 00:00:00.
  \<^verbatim>\<open>datetime\<close> renders an instant as \<^verbatim>\<open>YYYY-MM-DD HH:MM:SS\<close> in the Gregorian
  calendar; the modifier \<^verbatim>\<open>-1 day\<close> subtracts 86400 seconds from the instant before it
  is rendered. The calendar date of a day number is reached from the epoch one day at
  a time.
\<close>

definition is_leap :: "nat \<Rightarrow> bool" where
  "is_leap y = (y mod 4 = 0 \<and> (y mod 100 \<noteq> 0 \<or> y mod 400 = 0))"

definition days_in_month :: "nat \<Rightarrow> nat \<Rightarrow> nat" where
  "days_in_month y m =
     (if m = 2 then (if is_leap y then 29 else 28)
      else if m = 4 \<or> m = 6 \<or> m = 9 \<or> m = 11 then 30 else 31)"

type_synonym date = "nat \<times> nat \<times> nat"

definition next_day :: "date \<Rightarrow> date" where
  "next_day ymd =
     (case ymd of (y, m, d) \<Rightarrow>
        if d < days_in_month y m then (y, m, d + 1)
        else if m < 12 then (y, m + 1, 1)
        else (y + 1, 1, 1))"

primrec computeYMD :: "nat \<Rightarrow> date" where
  "computeYMD 0 = (1970, 1, 1)"
| "computeYMD (Suc n) = next_day (computeYMD n)"

definition strftime :: "date \<Rightarrow> nat \<Rightarrow> string" where
  "strftime ymd s =
     (case ymd of (y, m, d) \<Rightarrow>
        zpad 4 y @ ''-'' @ zpad 2 m @ ''-'' @ zpad 2 d @ '' '' @
        zpad 2 (s div 3600) @ '':'' @ zpad 2 (s mod 3600 div 60) @ '':'' @ zpad 2 (s mod 60))"

definition sqlite_datetime :: "nat \<Rightarrow> string" where
  "sqlite_datetime t = strftime (computeYMD (t div 86400)) (t mod 86400)"

text \<open>
  \<^verbatim>\<open>datetime('now','-1 day')\<close>: the instant 86400 seconds before the clock. During the
  first day after the epoch that instant lies on 1969-12-31, at the clock's own time of
  day.
\<close>

definition minus_1_day :: "nat \<Rightarrow> string" where
  "minus_1_day now =
     (if 86400 \<le> now then sqlite_datetime (now - 86400) else strftime (1969, 12, 31) now)"

text \<open>SQLite renders years up to 9999 only.\<close>

definition in_range :: "nat \<Rightarrow> bool" where
  "in_range t = (fst (computeYMD (t div 86400)) \<le> 9999)"

section \<open>The data model\<close>

text \<open>
  The dataclasses \<^verbatim>\<open>CDNOrigin\<close>, \<^verbatim>\<open>CacheRule\<close> and \<^verbatim>\<open>PurgeEvent\<close>. A row of
  \<^verbatim>\<open>cdn_origins\<close> and of \<^verbatim>\<open>purge_events\<close> has the fields of its dataclass; a row of
  \<^verbatim>\<open>cache_rules\<close> holds \<^verbatim>\<open>cache_headers\<close> as the integer \<^verbatim>\<open>int(cache_headers)\<close>.
  Text arguments are byte strings. An integer argument is a Python \<^verbatim>\<open>int\<close>, unbounded; SQLite's INTEGER is a
  signed 64-bit value, and the \<^verbatim>\<open>sqlite3\<close> module refuses to bind an integer outside
  that range.
\<close>

record CDNOrigin =
  o_id :: int
  o_name :: string
  o_origin_url :: string
  o_cdn_url :: string
  o_provider :: string
  o_status :: string
  o_cache_ttl :: int
  o_notes :: string
  o_created_at :: "string option"
  o_last_purge :: "string option"

record CacheRule =
  cr_id :: int
  cr_origin_id :: int
  cr_path_pattern :: string
  cr_ttl :: int
  cr_cache_headers :: bool
  cr_rule_type :: string
  cr_created_at :: "string option"

record cache_rules_row =
  r_id :: int
  r_origin_id :: int
  r_path_pattern :: string
  r_ttl :: int
  r_cache_headers :: int
  r_rule_type :: string
  r_created_at :: "string option"

record PurgeEvent =
  e_id :: int
  e_origin_id :: int
  e_purge_type :: string
  e_target :: string
  e_status :: string
  e_triggered_by :: string
  e_created_at :: "string option"

text \<open>
  A table is its rows in rowid order together with its entry of \<^verbatim>\<open>sqlite_sequence\<close>,
  the largest rowid an \<^verbatim>\<open>AUTOINCREMENT\<close> key has handed out.
\<close>

record 'a table =
  t_rows :: "'a list"
  t_seq :: int

record store =
  cdn_origins :: "CDNOrigin table"
  cache_rules :: "cache_rules_row table"
  purge_events :: "PurgeEvent table"

text \<open>\<^verbatim>\<open>_init_db\<close> on a fresh file: three empty tables.\<close>

definition init_db :: store where
  "init_db =
     \<lparr>cdn_origins = \<lparr>t_rows = [], t_seq = 0\<rparr>,
      cache_rules = \<lparr>t_rows = [], t_seq = 0\<rparr>,
      purge_events = \<lparr>t_rows = [], t_seq = 0\<rparr>\<rparr>"

section \<open>The environment of a call\<close>

text \<open>
  What a call reads from outside the store: Python's local clock, SQLite's UTC clock,
  and whether the storage layer fails. \<^term>\<open>io_fault env = Some k\<close> says that the
  \<open>k\<close>-th storage call of a writing operation (counted from 0, in program order, the
  explicit \<^verbatim>\<open>commit\<close> included) raises \<^verbatim>\<open>sqlite3.OperationalError\<close>.
\<close>

record env =
  now_local :: datetime
  now_utc :: nat
  io_fault :: "nat option"

text \<open>
  The exceptions: \<^verbatim>\<open>sqlite3.IntegrityError\<close> (a constraint is violated),
  \<^verbatim>\<open>sqlite3.OperationalError\<close> (the storage layer fails, or the table has used up its
  row ids) and \<^verbatim>\<open>OverflowError\<close> (an integer parameter does not fit SQLite's INTEGER).
\<close>

datatype error = IntegrityError | OperationalError | OverflowError

definition int64 :: "int \<Rightarrow> bool" where
  "int64 v = (- 9223372036854775808 \<le> v \<and> v \<le> 9223372036854775807)"

definition max_rowid :: int where
  "max_rowid = 9223372036854775807"

section \<open>Connections and transactions\<close>

text \<open>
  A connection holds the committed database and, while a transaction is open, the
  working copy the statements write to. The \<^verbatim>\<open>sqlite3\<close> module opens a transaction
  before the first INSERT or UPDATE, then binds the parameters, then runs the statement;
  \<^verbatim>\<open>commit\<close> makes the working copy the database; the block \<^verbatim>\<open>with sqlite3.connect(...) as conn\<close> commits when its body returns and rolls back
  when its body raises.
\<close>

record conn =
  db_file :: store
  txn :: "store option"

type_synonym 'a io = "conn \<Rightarrow> (error + 'a) \<times> conn"

definition working :: "conn \<Rightarrow> store" where
  "working c = (case txn c of None \<Rightarrow> db_file c | Some w \<Rightarrow> w)"

definition execute :: "bool \<Rightarrow> int list \<Rightarrow> (store \<Rightarrow> error + 'a \<times> store) \<Rightarrow> 'a io" where
  "execute fails params stmt c =
     (if fails then (Inl OperationalError, c)
      else if \<not> list_all int64 params then (Inl OverflowError, c\<lparr>txn := Some (working c)\<rparr>)
      else case stmt (working c) of
             Inl e \<Rightarrow> (Inl e, c\<lparr>txn := Some (working c)\<rparr>)
           | Inr (v, w) \<Rightarrow> (Inr v, c\<lparr>txn := Some w\<rparr>))"

definition commit :: "bool \<Rightarrow> unit io" where
  "commit fails c =
     (if fails then (Inl OperationalError, c)
      else (Inr (), \<lparr>db_file = working c, txn = None\<rparr>))"

definition bind_io :: "'a io \<Rightarrow> ('a \<Rightarrow> 'b io) \<Rightarrow> 'b io" where
  "bind_io m f c = (case m c of (Inl e, c') \<Rightarrow> (Inl e, c') | (Inr v, c') \<Rightarrow> f v c')"

definition return_io :: "'a \<Rightarrow> 'a io" where
  "return_io v c = (Inr v, c)"

definition with_connection :: "store \<Rightarrow> 'a io \<Rightarrow> (error + 'a) \<times> store" where
  "with_connection st body =
     (case body \<lparr>db_file = st, txn = None\<rparr> of
        (Inl e, c) \<Rightarrow> (Inl e, db_file c)
      | (Inr v, c) \<Rightarrow> (Inr v, working c))"

section \<open>Statements\<close>

text \<open>
  An \<^verbatim>\<open>INTEGER PRIMARY KEY AUTOINCREMENT\<close> key is one more than the largest rowid the
  table holds or has handed out. Once that is the largest 64-bit integer the INSERT is
  refused (\<^verbatim>\<open>SQLITE_FULL\<close>, an \<^verbatim>\<open>OperationalError\<close>), before any constraint is checked.
\<close>

definition last_rowid :: "('a \<Rightarrow> int) \<Rightarrow> 'a table \<Rightarrow> int" where
  "last_rowid rid t = fold max (map rid (t_rows t)) (t_seq t)"

definition new_rowid :: "('a \<Rightarrow> int) \<Rightarrow> 'a table \<Rightarrow> error + int" where
  "new_rowid rid t =
     (if max_rowid \<le> last_rowid rid t then Inl OperationalError
      else Inr (last_rowid rid t + 1))"

definition insert_row :: "int \<Rightarrow> 'a \<Rightarrow> 'a table \<Rightarrow> 'a table" where
  "insert_row i row t = \<lparr>t_rows = t_rows t @ [row], t_seq = i\<rparr>"

text \<open>
  \<^verbatim>\<open>INSERT INTO cdn_origins (name, origin_url, cdn_url, provider, cache_ttl, notes)\<close>:
  \<^verbatim>\<open>name\<close> is UNIQUE; \<^verbatim>\<open>status\<close>, \<^verbatim>\<open>created_at\<close> and \<^verbatim>\<open>last_purge\<close> take their
  defaults.
\<close>

definition insert_cdn_origin ::
  "nat \<Rightarrow> string \<Rightarrow> string \<Rightarrow> string \<Rightarrow> string \<Rightarrow> int \<Rightarrow> string \<Rightarrow> store \<Rightarrow> error + int \<times> store" where
  "insert_cdn_origin now name origin_url cdn_url provider cache_ttl notes w =
     (case new_rowid o_id (cdn_origins w) of
        Inl e \<Rightarrow> Inl e
      | Inr i \<Rightarrow>
          if name \<in> set (map o_name (t_rows (cdn_origins w))) then Inl IntegrityError
          else Inr (i, w\<lparr>cdn_origins :=
                 insert_row i
                   \<lparr>o_id = i, o_name = name, o_origin_url = origin_url, o_cdn_url = cdn_url,
                    o_provider = provider, o_status = ''active'', o_cache_ttl = cache_ttl,
                    o_notes = notes, o_created_at = Some (sqlite_datetime now),
                    o_last_purge = None\<rparr>
                   (cdn_origins w)\<rparr>))"

text \<open>
  \<^verbatim>\<open>INSERT INTO cache_rules (origin_id, path_pattern, ttl, cache_headers, rule_type)\<close>.
  The connection never sets \<^verbatim>\<open>PRAGMA foreign_keys\<close>, so the \<^verbatim>\<open>REFERENCES\<close> clause is
  not enforced.
\<close>

definition insert_cache_rule ::
  "nat \<Rightarrow> int \<Rightarrow> string \<Rightarrow> int \<Rightarrow> int \<Rightarrow> string \<Rightarrow> store \<Rightarrow> error + int \<times> store" where
  "insert_cache_rule now origin_id path_pattern ttl cache_headers rule_type w =
     (case new_rowid r_id (cache_rules w) of
        Inl e \<Rightarrow> Inl e
      | Inr i \<Rightarrow>
          Inr (i, w\<lparr>cache_rules :=
            insert_row i
              \<lparr>r_id = i, r_origin_id = origin_id, r_path_pattern = path_pattern,
               r_ttl = ttl, r_cache_headers = cache_headers, r_rule_type = rule_type,
               r_created_at = Some (sqlite_datetime now)\<rparr>
              (cache_rules w)\<rparr>))"

text \<open>
  \<^verbatim>\<open>INSERT INTO purge_events (origin_id, purge_type, target, status, triggered_by)
  VALUES (?, ?, ?, 'queued', ?)\<close>: \<^verbatim>\<open>created_at\<close> is not among the columns, so it takes
  its default \<^verbatim>\<open>CURRENT_TIMESTAMP\<close>.
\<close>

definition insert_purge_event ::
  "nat \<Rightarrow> int \<Rightarrow> string \<Rightarrow> string \<Rightarrow> string \<Rightarrow> store \<Rightarrow> error + int \<times> store" where
  "insert_purge_event now origin_id purge_type target triggered_by w =
     (case new_rowid e_id (purge_events w) of
        Inl e \<Rightarrow> Inl e
      | Inr i \<Rightarrow>
          Inr (i, w\<lparr>purge_events :=
            insert_row i
              \<lparr>e_id = i, e_origin_id = origin_id, e_purge_type = purge_type,
               e_target = target, e_status = ''queued'', e_triggered_by = triggered_by,
               e_created_at = Some (sqlite_datetime now)\<rparr>
              (purge_events w)\<rparr>))"

text \<open>\<^verbatim>\<open>UPDATE cdn_origins SET last_purge = ? WHERE id = ?\<close>\<close>

definition update_last_purge :: "string \<Rightarrow> int \<Rightarrow> store \<Rightarrow> error + unit \<times> store" where
  "update_last_purge ts origin_id w =
     Inr ((), w\<lparr>cdn_origins :=
       (cdn_origins w)\<lparr>t_rows :=
         map (\<lambda>x. if o_id x = origin_id then x\<lparr>o_last_purge := Some ts\<rparr> else x)
           (t_rows (cdn_origins w))\<rparr>\<rparr>)"

section \<open>The operations of \<^verbatim>\<open>CDNManager\<close>\<close>

definition get_origin :: "int \<Rightarrow> store \<Rightarrow> CDNOrigin option" where
  "get_origin origin_id st = find (\<lambda>x. o_id x = origin_id) (t_rows (cdn_origins st))"

definition add_origin ::
  "env \<Rightarrow> string \<Rightarrow> string \<Rightarrow> string \<Rightarrow> string \<Rightarrow> int \<Rightarrow> string \<Rightarrow> store
     \<Rightarrow> (error + CDNOrigin option) \<times> store" where
  "add_origin env name origin_url cdn_url provider cache_ttl notes st =
     (case with_connection st
        (bind_io (execute (io_fault env = Some 0) [cache_ttl]
                    (insert_cdn_origin (now_utc env) name origin_url cdn_url provider cache_ttl notes))
           (\<lambda>lastrowid. bind_io (commit (io_fault env = Some 1))
              (\<lambda>_. return_io lastrowid))) of
        (Inl e, st') \<Rightarrow> (Inl e, st')
      | (Inr lastrowid, st') \<Rightarrow> (Inr (get_origin lastrowid st'), st'))"

text \<open>
  \<^verbatim>\<open>if provider:\<close> holds for a non-empty string only: \<^verbatim>\<open>None\<close> and \<^verbatim>\<open>""\<close> both list
  every origin.
\<close>

definition list_origins :: "string option \<Rightarrow> store \<Rightarrow> CDNOrigin list" where
  "list_origins provider st =
     sort_key o_name
       (case provider of
          None \<Rightarrow> t_rows (cdn_origins st)
        | Some p \<Rightarrow>
            if p \<noteq> [] then filter (\<lambda>x. o_provider x = p) (t_rows (cdn_origins st))
            else t_rows (cdn_origins st))"

definition add_cache_rule ::
  "env \<Rightarrow> int \<Rightarrow> string \<Rightarrow> int \<Rightarrow> bool \<Rightarrow> string \<Rightarrow> store \<Rightarrow> (error + CacheRule) \<times> store" where
  "add_cache_rule env origin_id path_pattern ttl cache_headers rule_type st =
     (case with_connection st
        (bind_io (execute (io_fault env = Some 0)
                    [origin_id, ttl, if cache_headers then 1 else 0]
                    (insert_cache_rule (now_utc env) origin_id path_pattern ttl
                       (if cache_headers then 1 else 0) rule_type))
           (\<lambda>lastrowid. bind_io (commit (io_fault env = Some 1))
              (\<lambda>_. return_io lastrowid))) of
        (Inl e, st') \<Rightarrow> (Inl e, st')
      | (Inr lastrowid, st') \<Rightarrow>
          (Inr \<lparr>cr_id = lastrowid, cr_origin_id = origin_id, cr_path_pattern = path_pattern,
                cr_ttl = ttl, cr_cache_headers = cache_headers, cr_rule_type = rule_type,
                cr_created_at = None\<rparr>, st'))"

definition purge_cache ::
  "env \<Rightarrow> int \<Rightarrow> string \<Rightarrow> string \<Rightarrow> string \<Rightarrow> store \<Rightarrow> (error + PurgeEvent) \<times> store" where
  "purge_cache env origin_id purge_type target triggered_by st =
     (let ts = isoformat (now_local env) in
      case with_connection st
        (bind_io (execute (io_fault env = Some 0) [origin_id]
                    (insert_purge_event (now_utc env) origin_id purge_type target triggered_by))
           (\<lambda>lastrowid. bind_io (execute (io_fault env = Some 1) [origin_id]
                                    (update_last_purge ts origin_id))
              (\<lambda>_. bind_io (commit (io_fault env = Some 2))
                 (\<lambda>_. return_io lastrowid)))) of
        (Inl e, st') \<Rightarrow> (Inl e, st')
      | (Inr lastrowid, st') \<Rightarrow>
          (Inr \<lparr>e_id = lastrowid, e_origin_id = origin_id, e_purge_type = purge_type,
                e_target = target, e_status = ''queued'', e_triggered_by = triggered_by,
                e_created_at = Some ts\<rparr>, st'))"

text \<open>
  The two dictionaries of \<^verbatim>\<open>cdn_status\<close> are association lists in insertion order:
  \<^verbatim>\<open>d[k] = d.get(k, 0) + 1\<close> replaces the value of a key that is present and appends a
  key that is not.
\<close>

type_synonym counts = "(string \<times> nat) list"

definition dict_get :: "counts \<Rightarrow> string \<Rightarrow> nat \<Rightarrow> nat" where
  "dict_get d k dflt = (case map_of d k of None \<Rightarrow> dflt | Some v \<Rightarrow> v)"

definition tally :: "CDNOrigin \<Rightarrow> counts \<times> counts \<Rightarrow> counts \<times> counts" where
  "tally x acc =
     (case acc of (by_p, by_s) \<Rightarrow>
        (AList.update (o_provider x) (dict_get by_p (o_provider x) 0 + 1) by_p,
         AList.update (o_status x) (dict_get by_s (o_status x) 0 + 1) by_s))"

record StatusSummary =
  total_origins :: nat
  total_rules :: nat
  total_purges :: nat
  purges_24h :: nat
  by_provider :: counts
  by_status :: counts

text \<open>
  \<^verbatim>\<open>SELECT COUNT(*) FROM purge_events WHERE created_at > datetime('now','-1 day')\<close>
  compares texts; a NULL \<^verbatim>\<open>created_at\<close> is not counted.
\<close>

definition cdn_status :: "env \<Rightarrow> store \<Rightarrow> StatusSummary" where
  "cdn_status env st =
     (let origins = list_origins None st;
          rule_count = length (t_rows (cache_rules st));
          purge_total = length (t_rows (purge_events st));
          recent = length (filter
                     (\<lambda>e. Some (minus_1_day (now_utc env)) < e_created_at e)
                     (t_rows (purge_events st)))
      in case fold tally origins ([], []) of
           (by_p, by_s) \<Rightarrow>
             \<lparr>total_origins = length origins, total_rules = rule_count,
              total_purges = purge_total, purges_24h = recent,
              by_provider = by_p, by_status = by_s\<rparr>)"

record ExportPayload =
  p_exported_at :: string
  p_origins :: "CDNOrigin list"
  p_cache_rules :: "cache_rules_row list"
  p_recent_purge_events :: "PurgeEvent list"

text \<open>
  \<^verbatim>\<open>SELECT * FROM purge_events ORDER BY created_at DESC LIMIT 100\<close>: a descending sort
  (rows of equal \<^verbatim>\<open>created_at\<close> kept in rowid order), cut after 100 rows.
  \<^verbatim>\<open>SELECT * FROM cache_rules\<close> scans the table in rowid order.
\<close>

definition order_by_created_at_desc :: "PurgeEvent list \<Rightarrow> PurgeEvent list" where
  "order_by_created_at_desc es = rev (sort_key e_created_at (rev es))"

definition export_payload :: "env \<Rightarrow> store \<Rightarrow> ExportPayload" where
  "export_payload env st =
     \<lparr>p_exported_at = isoformat (now_local env),
      p_origins = list_origins None st,
      p_cache_rules = t_rows (cache_rules st),
      p_recent_purge_events = take 100 (order_by_created_at_desc (t_rows (purge_events st)))\<rparr>"

text \<open>\<^verbatim>\<open>export_json\<close> writes the payload to the file and returns the path.\<close>

definition export_json :: "env \<Rightarrow> string \<Rightarrow> store \<Rightarrow> string \<times> ExportPayload" where
  "export_json env output_path st = (output_path, export_payload env st)"

section \<open>Sequences of calls\<close>

text \<open>
  A session is a list of calls of the three writing operations, each with the
  environment it runs in. \<open>run\<close> lists the ids the calls hand back, in order; a call
  that raises hands back none.
\<close>

datatype entity = Origin | Rule | Event

datatype command =
  AddOrigin env string string string string int string
| AddCacheRule env int string int bool string
| PurgeCache env int string string string

fun step :: "command \<Rightarrow> store \<Rightarrow> (entity \<times> int) option \<times> store" where
  "step (AddOrigin env name origin_url cdn_url provider cache_ttl notes) st =
     (case add_origin env name origin_url cdn_url provider cache_ttl notes st of
        (Inr (Some x), st') \<Rightarrow> (Some (Origin, o_id x), st')
      | (Inr None, st') \<Rightarrow> (None, st')
      | (Inl e, st') \<Rightarrow> (None, st'))"
| "step (AddCacheRule env origin_id path_pattern ttl cache_headers rule_type) st =
     (case add_cache_rule env origin_id path_pattern ttl cache_headers rule_type st of
        (Inr x, st') \<Rightarrow> (Some (Rule, cr_id x), st')
      | (Inl e, st') \<Rightarrow> (None, st'))"
| "step (PurgeCache env origin_id purge_type target triggered_by) st =
     (case purge_cache env origin_id purge_type target triggered_by st of
        (Inr x, st') \<Rightarrow> (Some (Event, e_id x), st')
      | (Inl e, st') \<Rightarrow> (None, st'))"

fun run :: "command list \<Rightarrow> store \<Rightarrow> (entity \<times> int) list" where
  "run [] st = []"
| "run (c # cs) st =
     (case step c st of
        (None, st') \<Rightarrow> run cs st'
      | (Some a, st') \<Rightarrow> a # run cs st')"

definition ids_of :: "entity \<Rightarrow> (entity \<times> int) list \<Rightarrow> int list" where
  "ids_of k as = map snd (filter (\<lambda>a. fst a = k) as)"

definition stored_ids :: "entity \<Rightarrow> store \<Rightarrow> int list" where
  "stored_ids k st =
     (case k of
        Origin \<Rightarrow> map o_id (t_rows (cdn_origins st))
      | Rule \<Rightarrow> map r_id (t_rows (cache_rules st))
      | Event \<Rightarrow> map e_id (t_rows (purge_events st)))"

definition high :: "entity \<Rightarrow> store \<Rightarrow> int" where
  "high k st =
     (case k of
        Origin \<Rightarrow> last_rowid o_id (cdn_origins st)
      | Rule \<Rightarrow> last_rowid r_id (cache_rules st)
      | Event \<Rightarrow> last_rowid e_id (purge_events st))"

section \<open>Auxiliary definitions\<close>

text \<open>A decimal field of exactly \<open>w\<close> digits, the low digits of \<open>n\<close>.\<close>

primrec digits :: "nat \<Rightarrow> nat \<Rightarrow> string" where
  "digits 0 n = []"
| "digits (Suc w) n = digits w (n div 10) @ [digit (n mod 10)]"

text \<open>
  A small store for the concrete runs: the origin of the end-to-end scenario, registered
  on 1970-01-02, and a clock that reads 1970-01-03 12:00:05 both locally and in UTC.
\<close>

definition shop :: CDNOrigin where
  "shop =
     \<lparr>o_id = 1, o_name = ''shop'', o_origin_url = ''https://origin.example.com'',
      o_cdn_url = ''https://cdn.example.com'', o_provider = ''cloudflare'',
      o_status = ''active'', o_cache_ttl = 7200, o_notes = [],
      o_created_at = Some ''1970-01-02 09:00:00'', o_last_purge = None\<rparr>"

definition shop_store :: store where
  "shop_store =
     \<lparr>cdn_origins = \<lparr>t_rows = [shop], t_seq = 1\<rparr>,
      cache_rules = \<lparr>t_rows = [], t_seq = 0\<rparr>,
      purge_events = \<lparr>t_rows = [], t_seq = 0\<rparr>\<rparr>"

definition noon :: env where
  "noon =
     \<lparr>now_local = \<lparr>year = 1970, month = 1, day = 3, hour = 12, minute = 0, second = 5,
                   microsecond = 0\<rparr>,
      now_utc = 216005, io_fault = None\<rparr>"

text \<open>The same clock, with the storage layer failing at the second storage call.\<close>

definition update_fails :: env where
  "update_fails = noon\<lparr>io_fault := Some 1\<rparr>"

text \<open>A store with two origins, one rule and two purge events, stamped 25 hours and 1 hour
  before the clock \<^term>\<open>noon\<close>.\<close>

definition blog :: CDNOrigin where
  "blog =
     \<lparr>o_id = 2, o_name = ''blog'', o_origin_url = ''https://blog.example.com'',
      o_cdn_url = ''https://blog-cdn.example.com'', o_provider = ''fastly'',
      o_status = ''paused'', o_cache_ttl = 3600, o_notes = [],
      o_created_at = Some ''1970-01-02 09:30:00'', o_last_purge = None\<rparr>"

definition static_rule :: cache_rules_row where
  "static_rule =
     \<lparr>r_id = 1, r_origin_id = 1, r_path_pattern = ''/static/*'', r_ttl = 86400,
      r_cache_headers = 1, r_rule_type = ''cache'',
      r_created_at = Some ''1970-01-02 09:45:00''\<rparr>"

definition purge_at :: "int \<Rightarrow> nat \<Rightarrow> PurgeEvent" where
  "purge_at i t =
     \<lparr>e_id = i, e_origin_id = 1, e_purge_type = ''full'', e_target = ''*'',
      e_status = ''queued'', e_triggered_by = ''cli'',
      e_created_at = Some (sqlite_datetime t)\<rparr>"

definition fleet :: store where
  "fleet =
     \<lparr>cdn_origins = \<lparr>t_rows = [shop, blog], t_seq = 2\<rparr>,
      cache_rules = \<lparr>t_rows = [static_rule], t_seq = 1\<rparr>,
      purge_events = \<lparr>t_rows = [purge_at 1 126005, purge_at 2 212405], t_seq = 2\<rparr>\<rparr>"

text \<open>A session from the fresh store: a duplicate name and a failing UPDATE among the calls.\<close>

definition session :: "command list" where
  "session =
     [AddOrigin noon ''shop'' ''https://origin.example.com'' ''https://cdn.example.com''
        ''cloudflare'' 7200 [],
      AddOrigin noon ''shop'' ''https://other.example.com'' ''https://cdn2.example.com''
        ''fastly'' 60 [],
      AddOrigin noon ''blog'' ''https://blog.example.com'' ''https://blog-cdn.example.com''
        ''fastly'' 3600 [],
      PurgeCache update_fails 1 ''full'' ''*'' ''cli'',
      PurgeCache noon 1 ''path'' ''/images/*'' ''cli'',
      AddCacheRule noon 1 ''/static/*'' 3600 True ''cache'']"

text \<open>A store whose one purge event is stamped an hour after the clock \<^term>\<open>noon\<close>.\<close>

definition ahead :: store where
  "ahead = shop_store\<lparr>purge_events := \<lparr>t_rows = [purge_at 1 219605], t_seq = 1\<rparr>\<rparr>"

section \<open>Decimal fields and their order\<close>

lemma of_char_digit: "d < 10 \<Longrightarrow> of_char (digit d) = 48 + d"
  by (simp add: digit_def)

lemma digit_char:
  "digit 0 = CHR ''0''" "digit 1 = CHR ''1''" "digit 2 = CHR ''2''" "digit 3 = CHR ''3''"
  "digit 4 = CHR ''4''" "digit 5 = CHR ''5''" "digit 6 = CHR ''6''" "digit 7 = CHR ''7''"
  "digit 8 = CHR ''8''" "digit 9 = CHR ''9''" "digit (Suc 0) = CHR ''1''"
  unfolding digit_def by (rule char_of_eq_iff [THEN iffD2], simp)+

lemma digit_two: "digit (Suc (Suc 0)) = CHR ''2''"
  using digit_char(3) by (simp only: numeral_2_eq_2)

lemma digit_less_iff: "a < 10 \<Longrightarrow> b < 10 \<Longrightarrow> digit a < digit b \<longleftrightarrow> a < b"
  by (simp add: less_char_def of_char_digit)

lemma digit_eq_iff:
  assumes "a < 10" "b < 10"
  shows "digit a = digit b \<longleftrightarrow> a = b"
proof
  assume "digit a = digit b"
  then have "(of_char (digit a) :: nat) = of_char (digit b)"
    by (rule arg_cong)
  then have "48 + a = 48 + b"
    by (simp only: of_char_digit [OF assms(1)] of_char_digit [OF assms(2)])
  then show "a = b" by (simp only: add_left_cancel)
qed (rule arg_cong)

lemma zpad_Suc:
  "zpad (Suc w) n =
     (if n < 10 then replicate w (CHR ''0'') @ [digit n]
      else zpad w (n div 10) @ [digit (n mod 10)])"
  by (subst (1) zpad_def, subst (1 2) dec.simps) (simp add: zpad_def)

lemma digits_zero: "digits w 0 = replicate w (CHR ''0'')"
  by (induction w) (simp_all add: digit_char replicate_append_same)

lemma zpad_digits: "n < 10 ^ w \<Longrightarrow> 0 < w \<Longrightarrow> zpad w n = digits w n"
proof (induction w arbitrary: n)
  case 0
  then show ?case by simp
next
  case (Suc w)
  show ?case
  proof (cases "n < 10")
    case True
    then show ?thesis by (simp add: zpad_Suc digits_zero)
  next
    case False
    with Suc.prems have "0 < w" by (cases w) auto
    moreover from Suc.prems have "n div 10 < 10 ^ w"
      by (simp add: less_mult_imp_div_less mult.commute)
    ultimately show ?thesis using False Suc.IH by (simp add: zpad_Suc)
  qed
qed

lemma zpad2: "n < 100 \<Longrightarrow> zpad 2 n = digits 2 n"
  by (rule zpad_digits) simp_all

lemma zpad4: "n < 10000 \<Longrightarrow> zpad 4 n = digits 4 n"
  by (rule zpad_digits) simp_all

lemma zpad6: "n < 1000000 \<Longrightarrow> zpad 6 n = digits 6 n"
  by (rule zpad_digits) simp_all

lemma lex10:
  fixes qa ra qb rb :: nat
  assumes "ra < 10" "rb < 10"
  shows "(qa < qb \<or> qa = qb \<and> (ra < rb \<or> ra = rb \<and> R)) \<longleftrightarrow>
         (10 * qa + ra < 10 * qb + rb \<or> 10 * qa + ra = 10 * qb + rb \<and> R)"
  using assms by (cases R) (simp_all, linarith+)

text \<open>Fields of equal width compare as the numbers they show.\<close>

lemma digits_less_iff:
  "a < 10 ^ w \<Longrightarrow> b < 10 ^ w \<Longrightarrow>
   digits w a @ r < digits w b @ s \<longleftrightarrow> a < b \<or> a = b \<and> r < s"
proof (induction w arbitrary: a b r s)
  case 0
  then show ?case by simp
next
  case (Suc w)
  have a: "a div 10 < 10 ^ w" and b: "b div 10 < 10 ^ w"
    using Suc.prems by (simp_all add: less_mult_imp_div_less mult.commute)
  have "digits (Suc w) a @ r < digits (Suc w) b @ s \<longleftrightarrow>
        digits w (a div 10) @ (digit (a mod 10) # r) < digits w (b div 10) @ (digit (b mod 10) # s)"
    by simp
  also have "\<dots> \<longleftrightarrow> a div 10 < b div 10 \<or>
        a div 10 = b div 10 \<and> digit (a mod 10) # r < digit (b mod 10) # s"
    by (rule Suc.IH [OF a b])
  also have "\<dots> \<longleftrightarrow> a div 10 < b div 10 \<or>
        a div 10 = b div 10 \<and> (a mod 10 < b mod 10 \<or> a mod 10 = b mod 10 \<and> r < s)"
    by (simp add: digit_less_iff digit_eq_iff)
  also have "\<dots> \<longleftrightarrow> a < b \<or> a = b \<and> r < s"
    using lex10 [of "a mod 10" "b mod 10" "a div 10" "b div 10" "r < s"] by simp
  finally show ?case .
qed

lemma digits_numeral:
  "digits (numeral k) n = digits (pred_numeral k) (n div 10) @ [digit (n mod 10)]"
  using digits.simps(2) [of "pred_numeral k" n] by (simp only: numeral_eq_Suc [symmetric])

lemma computeYMD_numeral: "computeYMD (numeral k) = next_day (computeYMD (pred_numeral k))"
  using computeYMD.simps(2) [of "pred_numeral k"] by (simp only: numeral_eq_Suc [symmetric])

text \<open>What the simplifier needs to render a concrete instant.\<close>

lemmas ts_eval =
  sqlite_datetime_def strftime_def isoformat_def zpad2 zpad4 zpad6 digits_numeral digit_char digit_two
  computeYMD_numeral next_day_def days_in_month_def is_leap_def

lemma noon_utc: "sqlite_datetime 216005 = ''1970-01-03 12:00:05''"
  by (simp add: ts_eval)

lemma noon_local: "isoformat (now_local noon) = ''1970-01-03T12:00:05''"
  by (simp add: noon_def ts_eval)

section \<open>The writing operations, unfolded\<close>

lemma int64_flag: "int64 (if b then 1 else 0)"
  by (simp add: int64_def)

lemmas io_defs =
  with_connection_def bind_io_def execute_def commit_def return_io_def working_def
  new_rowid_def insert_row_def Let_def

lemma add_origin_eq:
  "add_origin env name origin_url cdn_url provider cache_ttl notes st =
     (if io_fault env = Some 0 then (Inl OperationalError, st)
      else if \<not> int64 cache_ttl then (Inl OverflowError, st)
      else if max_rowid \<le> last_rowid o_id (cdn_origins st) then (Inl OperationalError, st)
      else if name \<in> set (map o_name (t_rows (cdn_origins st))) then (Inl IntegrityError, st)
      else if io_fault env = Some 1 then (Inl OperationalError, st)
      else
        (Inr (get_origin (last_rowid o_id (cdn_origins st) + 1)
               (st\<lparr>cdn_origins :=
                 \<lparr>t_rows = t_rows (cdn_origins st) @
                    [\<lparr>o_id = last_rowid o_id (cdn_origins st) + 1, o_name = name,
                      o_origin_url = origin_url, o_cdn_url = cdn_url, o_provider = provider,
                      o_status = ''active'', o_cache_ttl = cache_ttl, o_notes = notes,
                      o_created_at = Some (sqlite_datetime (now_utc env)),
                      o_last_purge = None\<rparr>],
                  t_seq = last_rowid o_id (cdn_origins st) + 1\<rparr>\<rparr>)),
         st\<lparr>cdn_origins :=
               \<lparr>t_rows = t_rows (cdn_origins st) @
                  [\<lparr>o_id = last_rowid o_id (cdn_origins st) + 1, o_name = name,
                    o_origin_url = origin_url, o_cdn_url = cdn_url, o_provider = provider,
                    o_status = ''active'', o_cache_ttl = cache_ttl, o_notes = notes,
                    o_created_at = Some (sqlite_datetime (now_utc env)),
                    o_last_purge = None\<rparr>],
                t_seq = last_rowid o_id (cdn_origins st) + 1\<rparr>\<rparr>))"
  by (simp add: add_origin_def io_defs insert_cdn_origin_def)

lemma add_cache_rule_eq:
  "add_cache_rule env origin_id path_pattern ttl cache_headers rule_type st =
     (if io_fault env = Some 0 then (Inl OperationalError, st)
      else if \<not> (int64 origin_id \<and> int64 ttl) then (Inl OverflowError, st)
      else if max_rowid \<le> last_rowid r_id (cache_rules st) then (Inl OperationalError, st)
      else if io_fault env = Some 1 then (Inl OperationalError, st)
      else
        (Inr \<lparr>cr_id = last_rowid r_id (cache_rules st) + 1, cr_origin_id = origin_id,
              cr_path_pattern = path_pattern, cr_ttl = ttl, cr_cache_headers = cache_headers,
              cr_rule_type = rule_type, cr_created_at = None\<rparr>,
         st\<lparr>cache_rules :=
               \<lparr>t_rows = t_rows (cache_rules st) @
                  [\<lparr>r_id = last_rowid r_id (cache_rules st) + 1, r_origin_id = origin_id,
                    r_path_pattern = path_pattern, r_ttl = ttl,
                    r_cache_headers = (if cache_headers then 1 else 0),
                    r_rule_type = rule_type,
                    r_created_at = Some (sqlite_datetime (now_utc env))\<rparr>],
                t_seq = last_rowid r_id (cache_rules st) + 1\<rparr>\<rparr>))"
  using int64_flag [of cache_headers]
  by (simp add: add_cache_rule_def io_defs insert_cache_rule_def)

lemma purge_cache_eq:
  "purge_cache env origin_id purge_type target triggered_by st =
     (if io_fault env = Some 0 then (Inl OperationalError, st)
      else if \<not> int64 origin_id then (Inl OverflowError, st)
      else if max_rowid \<le> last_rowid e_id (purge_events st) then (Inl OperationalError, st)
      else if io_fault env = Some 1 \<or> io_fault env = Some 2 then (Inl OperationalError, st)
      else
        (Inr \<lparr>e_id = last_rowid e_id (purge_events st) + 1, e_origin_id = origin_id,
              e_purge_type = purge_type, e_target = target, e_status = ''queued'',
              e_triggered_by = triggered_by, e_created_at = Some (isoformat (now_local env))\<rparr>,
         st\<lparr>purge_events :=
               \<lparr>t_rows = t_rows (purge_events st) @
                  [\<lparr>e_id = last_rowid e_id (purge_events st) + 1, e_origin_id = origin_id,
                    e_purge_type = purge_type, e_target = target, e_status = ''queued'',
                    e_triggered_by = triggered_by,
                    e_created_at = Some (sqlite_datetime (now_utc env))\<rparr>],
                t_seq = last_rowid e_id (purge_events st) + 1\<rparr>,
             cdn_origins :=
               (cdn_origins st)\<lparr>t_rows :=
                  map (\<lambda>x. if o_id x = origin_id
                            then x\<lparr>o_last_purge := Some (isoformat (now_local env))\<rparr> else x)
                    (t_rows (cdn_origins st))\<rparr>\<rparr>))"
  by (simp add: purge_cache_def io_defs insert_purge_event_def update_last_purge_def)


lemma map_unmatched:
  "origin_id \<notin> set (map o_id xs) \<Longrightarrow>
   map (\<lambda>x. if o_id x = origin_id then x\<lparr>o_last_purge := v\<rparr> else x) xs = xs"
  by (induction xs) auto

lemma stamped:
  "\<forall>y \<in> set (map (\<lambda>x. if o_id x = i then x\<lparr>o_last_purge := v\<rparr> else x) xs).
     o_id y = i \<longrightarrow> o_last_purge y = v"
proof
  fix y
  assume "y \<in> set (map (\<lambda>x. if o_id x = i then x\<lparr>o_last_purge := v\<rparr> else x) xs)"
  then obtain x where y: "y = (if o_id x = i then x\<lparr>o_last_purge := v\<rparr> else x)"
    unfolding set_map by (rule imageE)
  show "o_id y = i \<longrightarrow> o_last_purge y = v"
    unfolding y by (cases "o_id x = i") simp_all
qed

text \<open>Each writing operation either raises and leaves the store, or returns.\<close>

lemma add_origin_cases:
  obtains (raises) e where
      "add_origin env name origin_url cdn_url provider cache_ttl notes st = (Inl e, st)"
  | (returns) x where
      "io_fault env \<noteq> Some 0" "io_fault env \<noteq> Some 1" "int64 cache_ttl"
      "last_rowid o_id (cdn_origins st) < max_rowid"
      "name \<notin> set (map o_name (t_rows (cdn_origins st)))"
      "x = \<lparr>o_id = last_rowid o_id (cdn_origins st) + 1, o_name = name,
            o_origin_url = origin_url, o_cdn_url = cdn_url, o_provider = provider,
            o_status = ''active'', o_cache_ttl = cache_ttl, o_notes = notes,
            o_created_at = Some (sqlite_datetime (now_utc env)), o_last_purge = None\<rparr>"
      "add_origin env name origin_url cdn_url provider cache_ttl notes st
         = (Inr (get_origin (o_id x)
                  (st\<lparr>cdn_origins := \<lparr>t_rows = t_rows (cdn_origins st) @ [x], t_seq = o_id x\<rparr>\<rparr>)),
            st\<lparr>cdn_origins := \<lparr>t_rows = t_rows (cdn_origins st) @ [x], t_seq = o_id x\<rparr>\<rparr>)"
proof (cases "io_fault env = Some 0 \<or> \<not> int64 cache_ttl
    \<or> max_rowid \<le> last_rowid o_id (cdn_origins st)
    \<or> name \<in> set (map o_name (t_rows (cdn_origins st))) \<or> io_fault env = Some 1")
  case True
  then have "\<exists>e. add_origin env name origin_url cdn_url provider cache_ttl notes st = (Inl e, st)"
    by (auto simp only: add_origin_eq split: if_splits)
  then show ?thesis using raises by blast
next
  case False
  then show ?thesis
    using returns [OF _ _ _ _ _ refl] by (simp add: add_origin_eq)
qed

lemma add_cache_rule_cases:
  obtains (raises) e where
      "add_cache_rule env origin_id path_pattern ttl cache_headers rule_type st = (Inl e, st)"
  | (returns) row where
      "io_fault env \<noteq> Some 0" "io_fault env \<noteq> Some 1" "int64 origin_id" "int64 ttl"
      "last_rowid r_id (cache_rules st) < max_rowid"
      "row = \<lparr>r_id = last_rowid r_id (cache_rules st) + 1, r_origin_id = origin_id,
              r_path_pattern = path_pattern, r_ttl = ttl,
              r_cache_headers = (if cache_headers then 1 else 0), r_rule_type = rule_type,
              r_created_at = Some (sqlite_datetime (now_utc env))\<rparr>"
      "add_cache_rule env origin_id path_pattern ttl cache_headers rule_type st
         = (Inr \<lparr>cr_id = r_id row, cr_origin_id = origin_id, cr_path_pattern = path_pattern,
                 cr_ttl = ttl, cr_cache_headers = cache_headers, cr_rule_type = rule_type,
                 cr_created_at = None\<rparr>,
            st\<lparr>cache_rules := \<lparr>t_rows = t_rows (cache_rules st) @ [row], t_seq = r_id row\<rparr>\<rparr>)"
proof (cases "io_fault env = Some 0 \<or> \<not> (int64 origin_id \<and> int64 ttl)
    \<or> max_rowid \<le> last_rowid r_id (cache_rules st) \<or> io_fault env = Some 1")
  case True
  then have "\<exists>e. add_cache_rule env origin_id path_pattern ttl cache_headers rule_type st
      = (Inl e, st)"
    by (auto simp only: add_cache_rule_eq split: if_splits)
  then show ?thesis using raises by blast
next
  case False
  then show ?thesis
    using returns [OF _ _ _ _ _ refl] by (simp add: add_cache_rule_eq)
qed

lemma purge_cache_cases:
  obtains (raises) e where
      "purge_cache env origin_id purge_type target triggered_by st = (Inl e, st)"
      "int64 origin_id \<Longrightarrow> e = OperationalError"
  | (returns) row where
      "io_fault env \<noteq> Some 0" "io_fault env \<noteq> Some 1" "io_fault env \<noteq> Some 2"
      "int64 origin_id" "last_rowid e_id (purge_events st) < max_rowid"
      "row = \<lparr>e_id = last_rowid e_id (purge_events st) + 1, e_origin_id = origin_id,
              e_purge_type = purge_type, e_target = target, e_status = ''queued'',
              e_triggered_by = triggered_by,
              e_created_at = Some (sqlite_datetime (now_utc env))\<rparr>"
      "purge_cache env origin_id purge_type target triggered_by st
         = (Inr (row\<lparr>e_created_at := Some (isoformat (now_local env))\<rparr>),
            st\<lparr>purge_events := \<lparr>t_rows = t_rows (purge_events st) @ [row], t_seq = e_id row\<rparr>,
               cdn_origins :=
                 (cdn_origins st)\<lparr>t_rows :=
                    map (\<lambda>x. if o_id x = origin_id
                              then x\<lparr>o_last_purge := Some (isoformat (now_local env))\<rparr> else x)
                      (t_rows (cdn_origins st))\<rparr>\<rparr>)"
proof (cases "io_fault env = Some 0 \<or> \<not> int64 origin_id
    \<or> max_rowid \<le> last_rowid e_id (purge_events st)
    \<or> io_fault env = Some 1 \<or> io_fault env = Some 2")
  case True
  then have "\<exists>e. purge_cache env origin_id purge_type target triggered_by st = (Inl e, st)
      \<and> (int64 origin_id \<longrightarrow> e = OperationalError)"
    by (auto simp only: purge_cache_eq split: if_splits)
  then show ?thesis using raises by blast
next
  case False
  then show ?thesis
    using returns [OF _ _ _ _ _ refl] by (simp add: purge_cache_eq)
qed


section \<open>Listing and counting\<close>

lemma fleet_sorted: "list_origins None fleet = [blog, shop]"
  by (simp add: list_origins_def fleet_def shop_def blog_def)

lemma sum_update:
  "sum_list (map snd (AList.update k (Suc (dict_get d k 0)) d)) = Suc (sum_list (map snd d))"
  by (induction d) (auto simp add: dict_get_def)

lemma sum_tally:
  "sum_list (map snd (fst (fold tally xs acc))) = sum_list (map snd (fst acc)) + length xs
   \<and> sum_list (map snd (snd (fold tally xs acc))) = sum_list (map snd (snd acc)) + length xs"
proof (induction xs arbitrary: acc)
  case Nil
  show ?case by simp
next
  case (Cons x xs)
  have f: "sum_list (map snd (fst (tally x acc))) = sum_list (map snd (fst acc)) + 1"
    by (cases acc) (simp add: tally_def sum_update)
  have s: "sum_list (map snd (snd (tally x acc))) = sum_list (map snd (snd acc)) + 1"
    by (cases acc) (simp add: tally_def sum_update)
  show ?case
    using Cons.IH [of "tally x acc"] f s by simp
qed

section \<open>The export\<close>

lemma desc_sorted:
  "sorted_wrt (\<lambda>a b. e_created_at b \<le> e_created_at a) (order_by_created_at_desc es)"
proof -
  have "sorted (map e_created_at (sort_key e_created_at (rev es)))"
    by (rule sorted_sort_key)
  then have "sorted_wrt (\<lambda>a b. e_created_at a \<le> e_created_at b) (sort_key e_created_at (rev es))"
    by (simp only: sorted_map)
  then show ?thesis
    by (simp add: order_by_created_at_desc_def sorted_wrt_rev)
qed

lemma desc_mset: "mset (order_by_created_at_desc es) = mset es"
  by (simp add: order_by_created_at_desc_def)

lemma sorted_wrt_take_drop:
  assumes "sorted_wrt P xs"
  shows "\<forall>x \<in> set (take n xs). \<forall>y \<in> set (drop n xs). P x y"
proof -
  from assms have "sorted_wrt P (take n xs @ drop n xs)" by simp
  then show ?thesis by (simp only: sorted_wrt_append) blast
qed

lemma fleet_purges:
  "sqlite_datetime 126005 = ''1970-01-02 11:00:05''"
  "sqlite_datetime 212405 = ''1970-01-03 11:00:05''"
  by (simp_all add: ts_eval)

lemma fleet_recent:
  "order_by_created_at_desc (t_rows (purge_events fleet)) = [purge_at 2 212405, purge_at 1 126005]"
  by (simp add: order_by_created_at_desc_def fleet_def purge_at_def fleet_purges)

section \<open>Row ids\<close>

lemma last_rowid_Max: "last_rowid rid t = Max (insert (t_seq t) (rid ` set (t_rows t)))"
  using Max.set_eq_fold [of "t_seq t" "map rid (t_rows t)"] by (simp add: last_rowid_def)

lemma last_rowid_ge: "x \<in> set (t_rows t) \<Longrightarrow> rid x \<le> last_rowid rid t"
  by (simp add: last_rowid_Max)

lemma last_rowid_insert:
  assumes "rid x = last_rowid rid t + 1"
  shows "last_rowid rid \<lparr>t_rows = t_rows t @ [x], t_seq = last_rowid rid t + 1\<rparr>
           = last_rowid rid t + 1"
proof -
  have "Max (insert (last_rowid rid t + 1) (rid ` set (t_rows t))) = last_rowid rid t + 1"
  proof (rule Max_eqI)
    fix y assume "y \<in> insert (last_rowid rid t + 1) (rid ` set (t_rows t))"
    then consider "y = last_rowid rid t + 1" | x where "x \<in> set (t_rows t)" "y = rid x"
      by auto
    then show "y \<le> last_rowid rid t + 1"
    proof cases
      case 1
      then show ?thesis by simp
    next
      case 2
      with last_rowid_ge [of x t rid] show ?thesis by simp
    qed
  qed simp_all
  then show ?thesis
    using assms by (simp add: last_rowid_Max)
qed

lemma o_id_stamp: "o_id (if o_id x = i then x\<lparr>o_last_purge := v\<rparr> else x) = o_id x"
  by (cases "o_id x = i") simp_all

lemma o_ids_stamp:
  "map o_id (map (\<lambda>x. if o_id x = i then x\<lparr>o_last_purge := v\<rparr> else x) xs) = map o_id xs"
  by (simp only: map_map comp_def o_id_stamp)

lemma last_rowid_stamp:
  "last_rowid o_id (t\<lparr>t_rows := map (\<lambda>x. if o_id x = i then x\<lparr>o_last_purge := v\<rparr> else x)
     (t_rows t)\<rparr>) = last_rowid o_id t"
  by (simp add: last_rowid_def comp_def o_id_stamp)

lemma get_origin_id: "get_origin i st = Some x \<Longrightarrow> o_id x = i"
  by (auto simp add: get_origin_def find_Some_iff)

lemma add_origin_high:
  obtains (fail) e where
      "add_origin env name origin_url cdn_url provider cache_ttl notes st = (Inl e, st)"
  | (ok) r st' where
      "add_origin env name origin_url cdn_url provider cache_ttl notes st = (Inr r, st')"
      "high Origin st' = high Origin st + 1" "high Rule st' = high Rule st"
      "high Event st' = high Event st" "\<And>x. r = Some x \<Longrightarrow> o_id x = high Origin st + 1"
proof (cases rule: add_origin_cases [of env name origin_url cdn_url provider cache_ttl "notes" st])
  case (raises e)
  then show ?thesis by (rule fail)
next
  case (returns x)
  let ?st' = "st\<lparr>cdn_origins := \<lparr>t_rows = t_rows (cdn_origins st) @ [x], t_seq = o_id x\<rparr>\<rparr>"
  have x: "o_id x = last_rowid o_id (cdn_origins st) + 1"
    by (simp add: returns(6))
  have "high Origin ?st' = high Origin st + 1"
    using last_rowid_insert [OF x] by (simp add: high_def x)
  moreover have "high Rule ?st' = high Rule st" "high Event ?st' = high Event st"
    by (simp_all add: high_def)
  moreover have "o_id y = high Origin st + 1" if "get_origin (o_id x) ?st' = Some y" for y
    using get_origin_id [OF that] by (simp add: high_def x)
  ultimately show ?thesis using ok [OF returns(7)] by blast
qed

lemma add_cache_rule_high:
  obtains (fail) e where
      "add_cache_rule env origin_id path_pattern ttl cache_headers rule_type st = (Inl e, st)"
  | (ok) x st' where
      "add_cache_rule env origin_id path_pattern ttl cache_headers rule_type st = (Inr x, st')"
      "high Rule st' = high Rule st + 1" "high Origin st' = high Origin st"
      "high Event st' = high Event st" "cr_id x = high Rule st + 1"
proof (cases rule: add_cache_rule_cases
    [of env origin_id path_pattern ttl cache_headers rule_type st])
  case (raises e)
  then show ?thesis by (rule fail)
next
  case (returns row)
  let ?st' = "st\<lparr>cache_rules := \<lparr>t_rows = t_rows (cache_rules st) @ [row], t_seq = r_id row\<rparr>\<rparr>"
  have row: "r_id row = last_rowid r_id (cache_rules st) + 1"
    by (simp add: returns(6))
  have "high Rule ?st' = high Rule st + 1"
    using last_rowid_insert [OF row] by (simp add: high_def row)
  moreover have "high Origin ?st' = high Origin st" "high Event ?st' = high Event st"
    by (simp_all add: high_def)
  ultimately show ?thesis using ok [OF returns(7)] by (simp add: high_def row)
qed

lemma purge_cache_high:
  obtains (fail) e where
      "purge_cache env origin_id purge_type target triggered_by st = (Inl e, st)"
  | (ok) x st' where
      "purge_cache env origin_id purge_type target triggered_by st = (Inr x, st')"
      "high Event st' = high Event st + 1" "high Origin st' = high Origin st"
      "high Rule st' = high Rule st" "e_id x = high Event st + 1"
proof (cases rule: purge_cache_cases [of env origin_id purge_type target triggered_by st])
  case (raises e)
  from raises(1) show ?thesis by (rule fail)
next
  case (returns row)
  let ?st' = "st\<lparr>purge_events := \<lparr>t_rows = t_rows (purge_events st) @ [row], t_seq = e_id row\<rparr>,
               cdn_origins :=
                 (cdn_origins st)\<lparr>t_rows :=
                    map (\<lambda>x. if o_id x = origin_id
                              then x\<lparr>o_last_purge := Some (isoformat (now_local env))\<rparr> else x)
                      (t_rows (cdn_origins st))\<rparr>\<rparr>"
  have row: "e_id row = last_rowid e_id (purge_events st) + 1"
    by (simp add: returns(6))
  have "high Event ?st' = high Event st + 1"
    using last_rowid_insert [OF row] by (simp add: high_def row)
  moreover have "high Origin ?st' = high Origin st"
    by (simp add: high_def last_rowid_stamp)
  moreover have "high Rule ?st' = high Rule st"
    by (simp add: high_def)
  ultimately show ?thesis using ok [OF returns(7)] by (simp add: high_def row)
qed

lemma step_cases:
  obtains (none) st' where "step c st = (None, st')" "\<And>k. high k st \<le> high k st'"
  | (some) k i st' where "step c st = (Some (k, i), st')" "i = high k st + 1"
      "high k st' = i" "\<And>k'. k' \<noteq> k \<Longrightarrow> high k' st' = high k' st"
proof (cases c)
  case (AddOrigin env name origin_url cdn_url provider cache_ttl memo)
  show ?thesis
  proof (cases rule: add_origin_high [of env name origin_url cdn_url provider cache_ttl memo st])
    case (fail e)
    then show ?thesis using none [of st] AddOrigin by simp
  next
    case (ok r st')
    show ?thesis
    proof (cases r)
      case None
      have "high k st \<le> high k st'" for k
        using ok(2-4) by (cases k) simp_all
      then show ?thesis using none [of st'] AddOrigin ok(1) None by simp
    next
      case (Some x)
      have "high k' st' = high k' st" if "k' \<noteq> Origin" for k'
        using ok(3,4) that by (cases k') simp_all
      then show ?thesis
        using some [of Origin "o_id x" st'] AddOrigin ok(1,2) ok(5) [OF Some] Some by simp
    qed
  qed
next
  case (AddCacheRule env origin_id path_pattern ttl cache_headers rule_type)
  show ?thesis
  proof (cases rule: add_cache_rule_high
      [of env origin_id path_pattern ttl cache_headers rule_type st])
    case (fail e)
    then show ?thesis using none [of st] AddCacheRule by simp
  next
    case (ok x st')
    have "high k' st' = high k' st" if "k' \<noteq> Rule" for k'
      using ok(3,4) that by (cases k') simp_all
    then show ?thesis
      using some [of Rule "cr_id x" st'] AddCacheRule ok(1,2,5) by simp
  qed
next
  case (PurgeCache env origin_id purge_type target triggered_by)
  show ?thesis
  proof (cases rule: purge_cache_high [of env origin_id purge_type target triggered_by st])
    case (fail e)
    then show ?thesis using none [of st] PurgeCache by simp
  next
    case (ok x st')
    have "high k' st' = high k' st" if "k' \<noteq> Event" for k'
      using ok(3,4) that by (cases k') simp_all
    then show ?thesis
      using some [of Event "e_id x" st'] PurgeCache ok(1,2,5) by simp
  qed
qed

lemma run_above: "(k, i) \<in> set (run cs st) \<Longrightarrow> high k st < i"
proof (induction cs arbitrary: st)
  case Nil
  then show ?case by simp
next
  case (Cons c cs)
  show ?case
  proof (cases rule: step_cases [of c st])
    case (none st')
    with Cons.prems have "(k, i) \<in> set (run cs st')" by simp
    then have "high k st' < i" by (rule Cons.IH)
    with none(2) [of k] show ?thesis by simp
  next
    case (some k0 i0 st')
    from Cons.prems some(1) consider "(k, i) = (k0, i0)" | "(k, i) \<in> set (run cs st')"
      by auto
    then show ?thesis
    proof cases
      case 1
      with some(2) show ?thesis by simp
    next
      case 2
      then have "high k st' < i" by (rule Cons.IH)
      moreover have "high k st \<le> high k st'"
        using some(2-4) by (cases "k = k0") simp_all
      ultimately show ?thesis by simp
    qed
  qed
qed

lemma ids_of_Cons:
  "ids_of k (a # as) = (if fst a = k then snd a # ids_of k as else ids_of k as)"
  by (simp add: ids_of_def)

lemma ids_of_mem: "i \<in> set (ids_of k as) \<longleftrightarrow> (k, i) \<in> set as"
  by (force simp add: ids_of_def)

lemma run_increasing: "sorted_wrt (<) (ids_of k (run cs st))"
proof (induction cs arbitrary: st)
  case Nil
  show ?case by (simp add: ids_of_def)
next
  case (Cons c cs)
  show ?case
  proof (cases rule: step_cases [of c st])
    case (none st')
    then show ?thesis using Cons.IH [of st'] by simp
  next
    case (some k0 i0 st')
    have "i0 < j" if "j \<in> set (ids_of k0 (run cs st'))" for j
      using run_above [of k0 j cs st'] that some(3) by (simp add: ids_of_mem)
    then show ?thesis
      using Cons.IH [of st'] some(1) by (simp add: ids_of_Cons)
  qed
qed

lemma stored_below_high: "j \<in> set (stored_ids k st) \<Longrightarrow> j \<le> high k st"
  by (cases k) (auto simp add: stored_ids_def high_def last_rowid_ge)

lemma small_ints: "int64 1" "int64 60" "int64 3600" "int64 7200" "int64 42"
  by (simp_all add: int64_def)

lemma session_run:
  "run session init_db = [(Origin, 1), (Origin, 2), (Event, 1), (Rule, 1)]"
  by (simp add: session_def init_db_def add_origin_eq add_cache_rule_eq purge_cache_eq
      get_origin_def last_rowid_def noon_def update_fails_def small_ints max_rowid_def)


section \<open>Timestamps in order\<close>

lemma next_day_greater: "ymd < next_day ymd"
  by (cases ymd) (simp add: next_day_def)

lemma computeYMD_strict_mono: "strict_mono computeYMD"
  by (rule strict_mono_Suc_iff [THEN iffD2]) (simp add: next_day_greater)

lemma days_in_month_bounds: "1 \<le> days_in_month y m \<and> days_in_month y m \<le> 31"
  by (simp add: days_in_month_def)

lemma computeYMD_valid:
  "case computeYMD n of (y, m, d) \<Rightarrow> 1 \<le> m \<and> m \<le> 12 \<and> 1 \<le> d \<and> d \<le> days_in_month y m"
proof (induction n)
  case 0
  show ?case by (simp add: days_in_month_def)
next
  case (Suc n)
  obtain y m d where ymd: "computeYMD n = (y, m, d)" by (cases "computeYMD n")
  with Suc show ?case
    using days_in_month_bounds [of y "m + 1"] days_in_month_bounds [of "y + 1" 1]
    by (simp add: next_day_def)
qed

lemma computeYMD_fields:
  assumes "computeYMD n = (y, m, d)"
  shows "m < 100" "d < 100"
  using computeYMD_valid [of n] days_in_month_bounds [of y m] assms by simp_all

lemma lex60:
  fixes qa ra qb rb :: nat
  assumes "ra < 60" "rb < 60"
  shows "(qa < qb \<or> qa = qb \<and> (ra < rb \<or> ra = rb \<and> R)) \<longleftrightarrow>
         (60 * qa + ra < 60 * qb + rb \<or> 60 * qa + ra = 60 * qb + rb \<and> R)"
  using assms by (cases R) (simp_all, linarith+)

lemma lex3600:
  fixes qa ra qb rb :: nat
  assumes "ra < 3600" "rb < 3600"
  shows "(qa < qb \<or> qa = qb \<and> (ra < rb \<or> ra = rb \<and> R)) \<longleftrightarrow>
         (3600 * qa + ra < 3600 * qb + rb \<or> 3600 * qa + ra = 3600 * qb + rb \<and> R)"
  using assms by (cases R) (simp_all, linarith+)

lemma lex86400:
  fixes qa ra qb rb :: nat
  assumes "ra < 86400" "rb < 86400"
  shows "(qa < qb \<or> qa = qb \<and> (ra < rb \<or> ra = rb \<and> R)) \<longleftrightarrow>
         (86400 * qa + ra < 86400 * qb + rb \<or> 86400 * qa + ra = 86400 * qb + rb \<and> R)"
  using assms by (cases R) (simp_all, linarith+)

lemma hms_less:
  fixes s s' :: nat
  shows "(s div 3600 < s' div 3600 \<or> s div 3600 = s' div 3600 \<and>
           (s mod 3600 div 60 < s' mod 3600 div 60 \<or>
            s mod 3600 div 60 = s' mod 3600 div 60 \<and> s mod 60 < s' mod 60))
         \<longleftrightarrow> s < s'"
proof -
  have m: "x mod 60 = x mod 3600 mod 60" for x :: nat
    by (simp add: mod_mod_cancel)
  have "(s mod 3600 div 60 < s' mod 3600 div 60 \<or>
         s mod 3600 div 60 = s' mod 3600 div 60 \<and> s mod 60 < s' mod 60)
        \<longleftrightarrow> s mod 3600 < s' mod 3600"
    using lex60 [of "s mod 3600 mod 60" "s' mod 3600 mod 60" "s mod 3600 div 60"
        "s' mod 3600 div 60" False]
    by (simp add: m [of s] m [of s'])
  then show ?thesis
    using lex3600 [of "s mod 3600" "s' mod 3600" "s div 3600" "s' div 3600" False]
    by simp
qed

lemma digits_less_iff0: "a < 10 ^ w \<Longrightarrow> b < 10 ^ w \<Longrightarrow> digits w a < digits w b \<longleftrightarrow> a < b"
  using digits_less_iff [of a w b "[]" "[]"] by simp

lemma strftime_digits:
  assumes "y < 10000" "m < 100" "d < 100" "s < 86400"
  shows "strftime (y, m, d) s =
     digits 4 y @ CHR ''-'' # digits 2 m @ CHR ''-'' # digits 2 d @ CHR '' '' #
     digits 2 (s div 3600) @ CHR '':'' # digits 2 (s mod 3600 div 60) @ CHR '':'' #
     digits 2 (s mod 60)"
proof -
  have "s div 3600 < 100" using assms(4) by (simp add: div_less_iff_less_mult)
  moreover have "s mod 3600 div 60 < 100" by (simp add: div_less_iff_less_mult)
  moreover have "s mod 60 < 100" using mod_less_divisor [of 60 s] by simp
  ultimately show ?thesis
    using assms by (simp add: strftime_def zpad2 zpad4)
qed

text \<open>A rendered date and time of day compare as texts the way they compare as numbers.\<close>

lemma strftime_less_iff:
  assumes "y < 10000" "m < 100" "d < 100" "s < 86400"
      and "y' < 10000" "m' < 100" "d' < 100" "s' < 86400"
  shows "strftime (y, m, d) s < strftime (y', m', d') s' \<longleftrightarrow>
         (y, m, d) < (y', m', d') \<or> (y, m, d) = (y', m', d') \<and> s < s'"
proof -
  have h: "s div 3600 < 10 ^ 2" "s' div 3600 < 10 ^ 2"
    using assms(4,8) by (simp_all add: div_less_iff_less_mult)
  have mi: "s mod 3600 div 60 < 10 ^ 2" "s' mod 3600 div 60 < 10 ^ 2"
    by (simp_all add: div_less_iff_less_mult)
  have se: "s mod 60 < 10 ^ 2" "s' mod 60 < 10 ^ 2"
    using mod_less_divisor [of 60 s] mod_less_divisor [of 60 s'] by simp_all
  have y: "y < 10 ^ 4" "y' < 10 ^ 4" and m: "m < 10 ^ 2" "m' < 10 ^ 2"
    and d: "d < 10 ^ 2" "d' < 10 ^ 2"
    using assms by simp_all
  have "strftime (y, m, d) s < strftime (y', m', d') s' \<longleftrightarrow>
      y < y' \<or> y = y' \<and> (m < m' \<or> m = m' \<and> (d < d' \<or> d = d' \<and>
        (s div 3600 < s' div 3600 \<or> s div 3600 = s' div 3600 \<and>
           (s mod 3600 div 60 < s' mod 3600 div 60 \<or>
            s mod 3600 div 60 = s' mod 3600 div 60 \<and> s mod 60 < s' mod 60))))"
    by (simp only: strftime_digits [OF assms(1-4)] strftime_digits [OF assms(5-8)]
        digits_less_iff [OF y] digits_less_iff [OF m] digits_less_iff [OF d]
        digits_less_iff [OF h] digits_less_iff [OF mi] digits_less_iff0 [OF se]
        Cons_less_Cons simp_thms order_less_irrefl)
  then show ?thesis
    by (auto simp add: hms_less)
qed

lemma in_range_mono: "t \<le> t' \<Longrightarrow> in_range t' \<Longrightarrow> in_range t"
proof -
  assume "t \<le> t'" and r: "in_range t'"
  then have "t div 86400 \<le> t' div 86400" by (simp add: div_le_mono)
  then have "computeYMD (t div 86400) \<le> computeYMD (t' div 86400)"
    using computeYMD_strict_mono by (simp add: strict_mono_less_eq)
  then have "fst (computeYMD (t div 86400)) \<le> fst (computeYMD (t' div 86400))"
    by (auto simp add: less_eq_prod_def)
  with r show "in_range t" by (simp add: in_range_def)
qed

text \<open>Within SQLite's range, timestamps compare as texts the way their instants compare.\<close>

lemma sqlite_datetime_less_iff:
  assumes "in_range t" "in_range t'"
  shows "sqlite_datetime t < sqlite_datetime t' \<longleftrightarrow> t < t'"
proof -
  obtain y m d where ymd: "computeYMD (t div 86400) = (y, m, d)"
    by (cases "computeYMD (t div 86400)")
  obtain y' m' d' where ymd': "computeYMD (t' div 86400) = (y', m', d')"
    by (cases "computeYMD (t' div 86400)")
  have y: "y < 10000" "y' < 10000"
    using assms by (simp_all add: in_range_def ymd ymd')
  have s: "t mod 86400 < 86400" "t' mod 86400 < 86400"
    by simp_all
  have "sqlite_datetime t < sqlite_datetime t' \<longleftrightarrow>
      computeYMD (t div 86400) < computeYMD (t' div 86400) \<or>
      computeYMD (t div 86400) = computeYMD (t' div 86400) \<and> t mod 86400 < t' mod 86400"
    unfolding sqlite_datetime_def ymd ymd'
    by (rule strftime_less_iff [OF y(1) computeYMD_fields [OF ymd] s(1)
          y(2) computeYMD_fields [OF ymd'] s(2)])
  also have "\<dots> \<longleftrightarrow> t div 86400 < t' div 86400 \<or>
      t div 86400 = t' div 86400 \<and> t mod 86400 < t' mod 86400"
    using computeYMD_strict_mono by (simp add: strict_mono_less strict_mono_eq)
  also have "\<dots> \<longleftrightarrow> t < t'"
    using lex86400 [OF s, of "t div 86400" "t' div 86400" False] by simp
  finally show ?thesis .
qed

lemma before_epoch:
  assumes "s < 86400" "in_range t"
  shows "strftime (1969, 12, 31) s < sqlite_datetime t"
proof -
  obtain y m d where ymd: "computeYMD (t div 86400) = (y, m, d)"
    by (cases "computeYMD (t div 86400)")
  have "computeYMD 0 \<le> computeYMD (t div 86400)"
    by (rule strict_mono_less_eq [OF computeYMD_strict_mono, THEN iffD2]) simp
  then have "(1969, 12, 31) < (y, m, d)"
    by (auto simp add: ymd less_eq_prod_def)
  moreover have "y < 10000"
    using assms(2) by (simp add: in_range_def ymd)
  moreover have "t mod 86400 < 86400" by simp
  ultimately show ?thesis
    unfolding sqlite_datetime_def ymd
    using strftime_less_iff [of 1969 12 31 s y m d "t mod 86400"]
      computeYMD_fields [OF ymd] assms(1)
    by simp
qed

text \<open>
  The cutoff of \<^verbatim>\<open>cdn_status\<close> is below a stored timestamp exactly when the timestamp's
  instant is later than 86400 seconds before the clock.
\<close>

lemma counted_iff:
  assumes "e_created_at e = Some (sqlite_datetime t)" "in_range t" "in_range now"
  shows "Some (minus_1_day now) < e_created_at e \<longleftrightarrow> int now - 86400 < int t"
proof (cases "86400 \<le> now")
  case True
  have "in_range (now - 86400)"
    using in_range_mono [of "now - 86400" now] assms(3) by simp
  then have "sqlite_datetime (now - 86400) < sqlite_datetime t \<longleftrightarrow> now - 86400 < t"
    using assms(2) by (rule sqlite_datetime_less_iff)
  with True show ?thesis
    by (auto simp add: minus_1_day_def assms(1))
next
  case False
  then have "strftime (1969, 12, 31) now < sqlite_datetime t"
    using before_epoch [of now t] assms(2) by simp
  with False show ?thesis
    by (simp add: minus_1_day_def assms(1))
qed

lemma purges_24h_filter:
  "purges_24h (cdn_status env st)
     = length (filter (\<lambda>e. Some (minus_1_day (now_utc env)) < e_created_at e)
         (t_rows (purge_events st)))"
  by (simp add: cdn_status_def Let_def case_prod_beta)

lemma ahead_stamp: "sqlite_datetime 219605 = ''1970-01-03 13:00:05''"
  by (simp add: ts_eval)

lemma noon_cutoff: "minus_1_day 216005 = ''1970-01-02 12:00:05''"
  by (simp add: minus_1_day_def ts_eval)

lemma in_range_small: "in_range 126005" "in_range 212405" "in_range 216005"
  by (simp_all add: in_range_def computeYMD_numeral next_day_def days_in_month_def is_leap_def)


section \<open>The claims\<close>

text \<open>
  C1. \<^verbatim>\<open>purge_cache\<close> on an existing origin stores a new event with that origin and
  status \<^verbatim>\<open>queued\<close>, and the origin's \<^verbatim>\<open>last_purge\<close> is to equal the stored event's
  \<^verbatim>\<open>created_at\<close>. The run below is the scenario of the specification, with the local and
  the UTC clock both at 1970-01-03 12:00:05: the stored event carries the default
  \<^verbatim>\<open>CURRENT_TIMESTAMP\<close>, the origin and the returned event carry Python's
  \<^verbatim>\<open>isoformat()\<close>, and the two texts differ.
\<close>

theorem purge_cache_stamps_differ:
  "map e_created_at (t_rows (purge_events
       (snd (purge_cache noon 1 ''path'' ''/images/*'' ''cli'' shop_store))))
     = [Some ''1970-01-03 12:00:05'']
   \<and> map e_status (t_rows (purge_events
       (snd (purge_cache noon 1 ''path'' ''/images/*'' ''cli'' shop_store))))
     = [''queued'']
   \<and> map o_last_purge (t_rows (cdn_origins
       (snd (purge_cache noon 1 ''path'' ''/images/*'' ''cli'' shop_store))))
     = [Some ''1970-01-03T12:00:05'']
   \<and> map_sum id e_created_at (fst (purge_cache noon 1 ''path'' ''/images/*'' ''cli'' shop_store))
     = Inr (Some ''1970-01-03T12:00:05'')"
  using noon_local
  by (simp add: purge_cache_eq noon_utc shop_store_def shop_def noon_def small_ints
      max_rowid_def last_rowid_def)

text \<open>
  C2. The two writes of \<^verbatim>\<open>purge_cache\<close> are one unit. When the INSERT, the UPDATE or
  the commit fails, the call raises and the store is the store before the call (the
  exception is \<^verbatim>\<open>OperationalError\<close> whenever \<^verbatim>\<open>origin_id\<close> can be bound at all);
  whenever the call raises, the store is unchanged; and when it returns, the event is
  stored and every origin row with that id carries the new \<^verbatim>\<open>last_purge\<close>.
\<close>

theorem purge_cache_all_or_nothing:
  "(io_fault env = Some 0 \<or> io_fault env = Some 1 \<or> io_fault env = Some 2 \<longrightarrow>
      (\<exists>e. purge_cache env origin_id purge_type target triggered_by st = (Inl e, st))
      \<and> (int64 origin_id \<longrightarrow>
           purge_cache env origin_id purge_type target triggered_by st
             = (Inl OperationalError, st)))
   \<and> (\<forall>e st'. purge_cache env origin_id purge_type target triggered_by st = (Inl e, st')
          \<longrightarrow> st' = st)
   \<and> (\<forall>ev st'. purge_cache env origin_id purge_type target triggered_by st = (Inr ev, st')
          \<longrightarrow> map e_origin_id (t_rows (purge_events st'))
                = map e_origin_id (t_rows (purge_events st)) @ [origin_id]
              \<and> (\<forall>x \<in> set (t_rows (cdn_origins st')).
                    o_id x = origin_id \<longrightarrow> o_last_purge x = Some (isoformat (now_local env))))"
proof (cases rule: purge_cache_cases [of env origin_id purge_type target triggered_by st])
  case (raises e)
  have "(\<exists>e. purge_cache env origin_id purge_type target triggered_by st = (Inl e, st))
      \<and> (int64 origin_id \<longrightarrow>
           purge_cache env origin_id purge_type target triggered_by st
             = (Inl OperationalError, st))"
    using raises by blast
  moreover have "\<forall>e st'. purge_cache env origin_id purge_type target triggered_by st
      = (Inl e, st') \<longrightarrow> st' = st"
    by (simp only: raises(1) prod.inject) simp
  moreover have "\<forall>ev st'. purge_cache env origin_id purge_type target triggered_by st
      = (Inr ev, st')
          \<longrightarrow> map e_origin_id (t_rows (purge_events st'))
                = map e_origin_id (t_rows (purge_events st)) @ [origin_id]
              \<and> (\<forall>x \<in> set (t_rows (cdn_origins st')).
                    o_id x = origin_id \<longrightarrow> o_last_purge x = Some (isoformat (now_local env)))"
    by (simp only: raises(1) prod.inject) simp
  ultimately show ?thesis by blast
next
  case (returns row)
  define st1 where "st1 =
     st\<lparr>purge_events := \<lparr>t_rows = t_rows (purge_events st) @ [row], t_seq = e_id row\<rparr>,
               cdn_origins :=
                 (cdn_origins st)\<lparr>t_rows :=
                    map (\<lambda>x. if o_id x = origin_id
                              then x\<lparr>o_last_purge := Some (isoformat (now_local env))\<rparr> else x)
                      (t_rows (cdn_origins st))\<rparr>\<rparr>"
  have eq: "purge_cache env origin_id purge_type target triggered_by st
      = (Inr (row\<lparr>e_created_at := Some (isoformat (now_local env))\<rparr>), st1)"
    unfolding st1_def by (rule returns(7))
  have ev: "map e_origin_id (t_rows (purge_events st1))
      = map e_origin_id (t_rows (purge_events st)) @ [origin_id]"
    by (simp add: st1_def returns(6))
  have og: "\<forall>x \<in> set (t_rows (cdn_origins st1)).
      o_id x = origin_id \<longrightarrow> o_last_purge x = Some (isoformat (now_local env))"
    using stamped [of origin_id "Some (isoformat (now_local env))" "t_rows (cdn_origins st)"]
    by (simp add: st1_def del: set_map)
  have "io_fault env = Some 0 \<or> io_fault env = Some 1 \<or> io_fault env = Some 2 \<longrightarrow>
      (\<exists>e. purge_cache env origin_id purge_type target triggered_by st = (Inl e, st))
      \<and> (int64 origin_id \<longrightarrow>
           purge_cache env origin_id purge_type target triggered_by st
             = (Inl OperationalError, st))"
    using returns(1-3) by blast
  moreover have "\<forall>e st'. purge_cache env origin_id purge_type target triggered_by st
      = (Inl e, st') \<longrightarrow> st' = st"
    by (simp only: eq prod.inject) simp
  moreover have "\<forall>ev st'. purge_cache env origin_id purge_type target triggered_by st
      = (Inr ev, st')
          \<longrightarrow> map e_origin_id (t_rows (purge_events st'))
                = map e_origin_id (t_rows (purge_events st)) @ [origin_id]
              \<and> (\<forall>x \<in> set (t_rows (cdn_origins st')).
                    o_id x = origin_id \<longrightarrow> o_last_purge x = Some (isoformat (now_local env)))"
  proof (intro allI impI)
    fix ev st'
    assume "purge_cache env origin_id purge_type target triggered_by st = (Inr ev, st')"
    then have "st' = st1" by (simp only: eq prod.inject)
    then show "map e_origin_id (t_rows (purge_events st'))
                = map e_origin_id (t_rows (purge_events st)) @ [origin_id]
              \<and> (\<forall>x \<in> set (t_rows (cdn_origins st')).
                    o_id x = origin_id \<longrightarrow> o_last_purge x = Some (isoformat (now_local env)))"
      using ev og by (simp only:) 
  qed
  ultimately show ?thesis by blast
qed

theorem purge_cache_all_or_nothing_witness:
  "purge_cache update_fails 1 ''full'' ''*'' ''cli'' shop_store = (Inl OperationalError, shop_store)
   \<and> io_fault update_fails = Some 1"
  using purge_cache_all_or_nothing [of update_fails 1 "''full''" "''*''" "''cli''" shop_store]
  by (simp add: update_fails_def small_ints)

text \<open>
  C3. \<^verbatim>\<open>add_origin\<close> with a name that is already stored fails and leaves the store as it
  was, so no second row of that name exists. The error is the violation of the UNIQUE
  constraint on \<^verbatim>\<open>name\<close> (\<^verbatim>\<open>sqlite3.IntegrityError\<close>) whenever the INSERT gets as far as
  the constraint: the storage layer does not fail at the INSERT, \<^verbatim>\<open>cache_ttl\<close> fits
  SQLite's INTEGER, and the table has a row id left.
\<close>

theorem add_origin_existing_name:
  assumes "name \<in> set (map o_name (t_rows (cdn_origins st)))"
  shows "(\<exists>e. add_origin env name origin_url cdn_url provider cache_ttl notes st = (Inl e, st))
         \<and> (io_fault env \<noteq> Some 0 \<and> int64 cache_ttl
              \<and> last_rowid o_id (cdn_origins st) < max_rowid \<longrightarrow>
              add_origin env name origin_url cdn_url provider cache_ttl notes st
                = (Inl IntegrityError, st))"
  using assms by (simp add: add_origin_eq)

theorem add_origin_existing_name_witness:
  "add_origin noon ''shop'' ''https://other.example.com'' ''https://cdn2.example.com''
     ''fastly'' 60 [] shop_store = (Inl IntegrityError, shop_store)"
  using add_origin_existing_name [of "''shop''" shop_store noon "''https://other.example.com''"
      "''https://cdn2.example.com''" "''fastly''" 60 "[]"]
  by (simp add: shop_store_def shop_def noon_def small_ints max_rowid_def last_rowid_def)

text \<open>
  C5. For an \<^verbatim>\<open>origin_id\<close> that no origin has, \<^verbatim>\<open>add_cache_rule\<close> and \<^verbatim>\<open>purge_cache\<close>
  both return normally: the rule and the event are stored with the dangling reference,
  and no origin row changes. This is for arguments SQLite can hold (\<^verbatim>\<open>origin_id\<close> and
  \<^verbatim>\<open>ttl\<close> within its INTEGER), a working storage layer and tables with a row id left.
\<close>

theorem orphaned_reference_succeeds:
  assumes "origin_id \<notin> set (map o_id (t_rows (cdn_origins st)))" and "io_fault env = None"
      and "int64 origin_id" and "int64 ttl"
      and "last_rowid r_id (cache_rules st) < max_rowid"
      and "last_rowid e_id (purge_events st) < max_rowid"
  shows "map_sum id cr_origin_id
           (fst (add_cache_rule env origin_id path_pattern ttl cache_headers rule_type st))
           = Inr origin_id
         \<and> map r_origin_id (t_rows (cache_rules
             (snd (add_cache_rule env origin_id path_pattern ttl cache_headers rule_type st))))
           = map r_origin_id (t_rows (cache_rules st)) @ [origin_id]
         \<and> cdn_origins (snd (add_cache_rule env origin_id path_pattern ttl cache_headers
             rule_type st))
           = cdn_origins st
         \<and> map_sum id e_origin_id
             (fst (purge_cache env origin_id purge_type target triggered_by st))
           = Inr origin_id
         \<and> map e_origin_id (t_rows (purge_events
             (snd (purge_cache env origin_id purge_type target triggered_by st))))
           = map e_origin_id (t_rows (purge_events st)) @ [origin_id]
         \<and> cdn_origins (snd (purge_cache env origin_id purge_type target triggered_by st))
           = cdn_origins st"
  using assms by (simp add: add_cache_rule_eq purge_cache_eq map_unmatched)

theorem orphaned_reference_succeeds_witness:
  "map_sum id cr_origin_id (fst (add_cache_rule noon 42 ''/static/*'' 3600 True ''cache'' shop_store))
     = Inr 42
   \<and> map r_origin_id (t_rows (cache_rules
        (snd (add_cache_rule noon 42 ''/static/*'' 3600 True ''cache'' shop_store)))) = [42]
   \<and> map_sum id e_origin_id (fst (purge_cache noon 42 ''full'' ''*'' ''cli'' shop_store)) = Inr 42
   \<and> map e_origin_id (t_rows (purge_events
        (snd (purge_cache noon 42 ''full'' ''*'' ''cli'' shop_store)))) = [42]
   \<and> cdn_origins (snd (purge_cache noon 42 ''full'' ''*'' ''cli'' shop_store))
     = cdn_origins shop_store"
  using orphaned_reference_succeeds [of 42 shop_store noon 3600 "''/static/*''" True "''cache''"
      "''full''" "''*''" "''cli''"]
  by (simp add: shop_store_def shop_def noon_def small_ints max_rowid_def last_rowid_def)

text \<open>
  C10. The \<^verbatim>\<open>CacheRule\<close> that \<^verbatim>\<open>add_cache_rule\<close> returns is to carry every attribute
  of the stored row, \<^verbatim>\<open>created_at\<close> included. In the run below the stored row has
  \<^verbatim>\<open>created_at = '1970-01-03 12:00:05'\<close> and the returned rule has \<^verbatim>\<open>created_at = None\<close>.
\<close>

theorem add_cache_rule_created_at_missing:
  "fst (add_cache_rule noon 1 ''/static/*'' 3600 True ''cache'' shop_store)
     = Inr \<lparr>cr_id = 1, cr_origin_id = 1, cr_path_pattern = ''/static/*'', cr_ttl = 3600,
            cr_cache_headers = True, cr_rule_type = ''cache'', cr_created_at = None\<rparr>
   \<and> t_rows (cache_rules (snd (add_cache_rule noon 1 ''/static/*'' 3600 True ''cache'' shop_store)))
     = [\<lparr>r_id = 1, r_origin_id = 1, r_path_pattern = ''/static/*'', r_ttl = 3600,
         r_cache_headers = 1, r_rule_type = ''cache'',
         r_created_at = Some ''1970-01-03 12:00:05''\<rparr>]"
  by (simp add: add_cache_rule_eq noon_utc shop_store_def noon_def last_rowid_def small_ints
      max_rowid_def)

text \<open>
  C4. \<^verbatim>\<open>list_origins(provider=P)\<close> is to return exactly the origins whose provider is
  \<open>P\<close>, for every string \<open>P\<close>. The guard \<^verbatim>\<open>if provider:\<close> treats the empty string as no
  filter: with \<open>P = ""\<close> the call lists an origin whose provider is \<^verbatim>\<open>cloudflare\<close>.
\<close>

theorem list_origins_empty_filter_lists_all:
  "list_origins (Some []) shop_store = [shop] \<and> o_provider shop = ''cloudflare''"
  by (simp add: list_origins_def shop_store_def shop_def)

text \<open>
  C4, as amended. For a non-empty \<open>P\<close> the result holds exactly the origins whose
  provider is \<open>P\<close>, each once, in ascending byte-wise lexicographic order of name; with
  no filter, and with the empty string, it holds every origin in that order; a filter
  that matches nothing gives the empty list.
\<close>

theorem list_origins_filtered_sorted:
  assumes "p \<noteq> []"
  shows "mset (list_origins (Some p) st)
           = filter_mset (\<lambda>x. o_provider x = p) (mset (t_rows (cdn_origins st)))
         \<and> sorted (map o_name (list_origins (Some p) st))
         \<and> mset (list_origins None st) = mset (t_rows (cdn_origins st))
         \<and> sorted (map o_name (list_origins None st))
         \<and> list_origins (Some []) st = list_origins None st
         \<and> (p \<notin> set (map o_provider (t_rows (cdn_origins st))) \<longrightarrow>
              list_origins (Some p) st = [])"
proof -
  have "filter (\<lambda>x. o_provider x = p) (t_rows (cdn_origins st)) = []"
    if "p \<notin> set (map o_provider (t_rows (cdn_origins st)))"
    using that by (auto simp add: filter_empty_conv)
  then show ?thesis
    using assms by (simp add: list_origins_def)
qed

theorem list_origins_filtered_sorted_witness:
  "list_origins (Some ''fastly'') fleet = [blog]
   \<and> list_origins None fleet = [blog, shop]
   \<and> list_origins (Some ''bunny'') fleet = []"
proof -
  have "list_origins (Some ''fastly'') fleet = [blog]"
    by (simp add: list_origins_def fleet_def shop_def blog_def)
  moreover have "list_origins (Some ''bunny'') fleet = []"
    using list_origins_filtered_sorted [of "''bunny''" fleet]
    by (simp add: fleet_def shop_def blog_def)
  ultimately show ?thesis by (simp add: fleet_sorted)
qed

text \<open>
  C6. In the summary of \<^verbatim>\<open>cdn_status\<close>, \<^verbatim>\<open>total_origins\<close> is the length of
  \<^verbatim>\<open>list_origins()\<close>, and the counts of \<^verbatim>\<open>by_provider\<close> and of \<^verbatim>\<open>by_status\<close> each add up
  to it.
\<close>

theorem cdn_status_totals:
  "total_origins (cdn_status env st) = length (list_origins None st)
   \<and> sum_list (map snd (by_provider (cdn_status env st))) = total_origins (cdn_status env st)
   \<and> sum_list (map snd (by_status (cdn_status env st))) = total_origins (cdn_status env st)"
  using sum_tally [of "list_origins None st" "([], [])"]
  by (simp add: cdn_status_def Let_def case_prod_beta)

text \<open>
  C9. The payload of \<^verbatim>\<open>export_json\<close> holds the export timestamp, every origin in the
  order of \<^verbatim>\<open>list_origins()\<close> (ascending by name), every cache rule in the order of
  insertion (whenever \<^verbatim>\<open>add_cache_rule\<close> returns, the new rule is exported after the
  rules that were there), and at most
  100 purge events, in descending order of \<^verbatim>\<open>created_at\<close>, none of them older than an
  event that is left out.
\<close>

theorem export_json_payload:
  "fst (export_json env output_path st) = output_path
   \<and> p_exported_at (snd (export_json env output_path st)) = isoformat (now_local env)
   \<and> p_origins (snd (export_json env output_path st)) = list_origins None st
   \<and> sorted (map o_name (p_origins (snd (export_json env output_path st))))
   \<and> mset (p_origins (snd (export_json env output_path st))) = mset (t_rows (cdn_origins st))
   \<and> p_cache_rules (snd (export_json env output_path st)) = t_rows (cache_rules st)
   \<and> (\<not> isl (fst (add_cache_rule env' origin_id path_pattern ttl cache_headers rule_type st))
        \<longrightarrow>
        p_cache_rules (snd (export_json env output_path
          (snd (add_cache_rule env' origin_id path_pattern ttl cache_headers rule_type st))))
        = p_cache_rules (snd (export_json env output_path st)) @
            [last (t_rows (cache_rules
               (snd (add_cache_rule env' origin_id path_pattern ttl cache_headers
                      rule_type st))))])
   \<and> length (p_recent_purge_events (snd (export_json env output_path st)))
       = min 100 (length (t_rows (purge_events st)))
   \<and> sorted_wrt (\<lambda>a b. e_created_at b \<le> e_created_at a)
        (p_recent_purge_events (snd (export_json env output_path st)))
   \<and> (\<exists>older. mset (p_recent_purge_events (snd (export_json env output_path st)) @ older)
                  = mset (t_rows (purge_events st))
         \<and> (\<forall>x \<in> set (p_recent_purge_events (snd (export_json env output_path st))).
              \<forall>y \<in> set older. e_created_at y \<le> e_created_at x))"
proof -
  let ?p = "snd (export_json env output_path st)"
  let ?add = "add_cache_rule env' origin_id path_pattern ttl cache_headers rule_type st"
  let ?all = "order_by_created_at_desc (t_rows (purge_events st))"
  have recent: "p_recent_purge_events ?p = take 100 ?all"
    by (simp add: export_json_def export_payload_def)
  have len: "length ?all = length (t_rows (purge_events st))"
    using desc_mset [of "t_rows (purge_events st)"] by (rule mset_eq_length)
  have c1: "fst (export_json env output_path st) = output_path"
    by (simp add: export_json_def)
  have c2: "p_exported_at ?p = isoformat (now_local env)"
    by (simp add: export_json_def export_payload_def)
  have c3: "p_origins ?p = list_origins None st"
    by (simp add: export_json_def export_payload_def)
  have c4: "sorted (map o_name (p_origins ?p))"
    unfolding c3 by (simp add: list_origins_def)
  have c5: "mset (p_origins ?p) = mset (t_rows (cdn_origins st))"
    unfolding c3 by (simp add: list_origins_def)
  have c6: "p_cache_rules ?p = t_rows (cache_rules st)"
    by (simp add: export_json_def export_payload_def)
  have c7: "\<not> isl (fst ?add) \<longrightarrow>
      p_cache_rules (snd (export_json env output_path (snd ?add)))
      = p_cache_rules ?p @ [last (t_rows (cache_rules (snd ?add)))]"
  proof (cases rule: add_cache_rule_cases
      [of env' origin_id path_pattern ttl cache_headers rule_type st])
    case (raises e)
    then show ?thesis by simp
  next
    case (returns row)
    show ?thesis
      by (simp only: returns(7)) (simp add: export_json_def export_payload_def)
  qed
  have c8: "length (p_recent_purge_events ?p) = min 100 (length (t_rows (purge_events st)))"
    unfolding recent by (simp add: len)
  have c9: "sorted_wrt (\<lambda>a b. e_created_at b \<le> e_created_at a) (p_recent_purge_events ?p)"
    unfolding recent using desc_sorted by (rule sorted_wrt_take)
  have "mset (take 100 ?all @ drop 100 ?all) = mset (t_rows (purge_events st))"
    by (simp only: append_take_drop_id desc_mset)
  moreover have "\<forall>x \<in> set (take 100 ?all). \<forall>y \<in> set (drop 100 ?all).
      e_created_at y \<le> e_created_at x"
    using desc_sorted by (rule sorted_wrt_take_drop)
  ultimately have c10: "\<exists>older. mset (p_recent_purge_events ?p @ older)
        = mset (t_rows (purge_events st))
      \<and> (\<forall>x \<in> set (p_recent_purge_events ?p). \<forall>y \<in> set older.
            e_created_at y \<le> e_created_at x)"
    unfolding recent by blast
  show ?thesis
    by (intro conjI) (rule c1 c2 c3 c4 c5 c6 c7 c8 c9 c10)+
qed

theorem export_json_payload_witness:
  "p_exported_at (snd (export_json noon ''cdn_export.json'' fleet)) = ''1970-01-03T12:00:05''
   \<and> p_origins (snd (export_json noon ''cdn_export.json'' fleet)) = [blog, shop]
   \<and> p_cache_rules (snd (export_json noon ''cdn_export.json'' fleet)) = [static_rule]
   \<and> p_recent_purge_events (snd (export_json noon ''cdn_export.json'' fleet))
       = [purge_at 2 212405, purge_at 1 126005]
   \<and> length (p_recent_purge_events (snd (export_json noon ''cdn_export.json'' fleet))) = 2"
proof -
  have "p_recent_purge_events (snd (export_json noon ''cdn_export.json'' fleet))
      = [purge_at 2 212405, purge_at 1 126005]"
    by (simp add: export_json_def export_payload_def fleet_recent)
  moreover have "t_rows (cache_rules fleet) = [static_rule]"
    by (simp add: fleet_def)
  ultimately show ?thesis
    using export_json_payload [of noon "''cdn_export.json''" fleet noon 1 "''/api/*''" 60 True
        "''bypass''"] noon_local fleet_sorted
    by simp
qed

text \<open>
  C8. In every session, from every store, the ids handed back for one kind of entity are
  strictly increasing, and each is larger than every id the store held for that kind
  when the session began. Calls that raise, among them calls whose INSERT was rolled back,
  hand back no id.
\<close>

theorem assigned_ids_increase:
  "sorted_wrt (<) (ids_of k (run cs st))
   \<and> (\<forall>i \<in> set (ids_of k (run cs st)). \<forall>j \<in> set (stored_ids k st). j < i)"
proof -
  have "j < i" if "i \<in> set (ids_of k (run cs st))" "j \<in> set (stored_ids k st)" for i j
    using run_above [of k i cs st] stored_below_high [of j k st] that
    by (simp add: ids_of_mem)
  then show ?thesis using run_increasing by blast
qed

theorem assigned_ids_increase_witness:
  "ids_of Origin (run session init_db) = [1, 2]
   \<and> sorted_wrt (<) (ids_of Origin (run session init_db))
   \<and> stored_ids Origin init_db = []"
proof -
  have "stored_ids Origin init_db = []"
    by (simp add: stored_ids_def init_db_def)
  then show ?thesis
    using assigned_ids_increase [of Origin session init_db]
    by (simp add: session_run ids_of_def)
qed

text \<open>
  C7. \<^verbatim>\<open>purges_24h\<close> is to count exactly the events created within the 24 hours before
  the call. The query has a lower bound only: in the run below the clock reads
  1970-01-03 12:00:05, the one stored event is stamped 1970-01-03 13:00:05, an hour
  after the call, and it is counted.
\<close>

theorem purges_24h_counts_future_event:
  "sqlite_datetime (now_utc noon) = ''1970-01-03 12:00:05''
   \<and> map e_created_at (t_rows (purge_events ahead)) = [Some ''1970-01-03 13:00:05'']
   \<and> purges_24h (cdn_status noon ahead) = 1"
  using noon_utc noon_cutoff
  by (simp add: purges_24h_filter ahead_def purge_at_def ahead_stamp noon_def)

text \<open>
  C7, as amended. Let every stored event carry the timestamp the store gives an instant
  (\<^verbatim>\<open>CURRENT_TIMESTAMP\<close> at \<open>at e\<close>), within SQLite's range of years. Then \<^verbatim>\<open>purges_24h\<close>
  counts exactly the events whose instant is later than 24 hours before the call: an
  event stamped 25 hours before the call is not counted, an event stamped 1 hour before
  it is, and so is every event stamped at or after the call.
\<close>

theorem purges_24h_later_than_cutoff:
  assumes "\<forall>e \<in> set (t_rows (purge_events st)).
             e_created_at e = Some (sqlite_datetime (at e)) \<and> in_range (at e)"
      and "in_range (now_utc env)"
  shows "purges_24h (cdn_status env st)
           = length (filter (\<lambda>e. int (now_utc env) - 86400 < int (at e))
               (t_rows (purge_events st)))
         \<and> (\<forall>e \<in> set (t_rows (purge_events st)). at e + 90000 = now_utc env \<longrightarrow>
               \<not> Some (minus_1_day (now_utc env)) < e_created_at e)
         \<and> (\<forall>e \<in> set (t_rows (purge_events st)). at e + 3600 = now_utc env \<longrightarrow>
               Some (minus_1_day (now_utc env)) < e_created_at e)
         \<and> (\<forall>e \<in> set (t_rows (purge_events st)). now_utc env \<le> at e \<longrightarrow>
               Some (minus_1_day (now_utc env)) < e_created_at e)"
proof -
  have c: "Some (minus_1_day (now_utc env)) < e_created_at e
      \<longleftrightarrow> int (now_utc env) - 86400 < int (at e)"
    if "e \<in> set (t_rows (purge_events st))" for e
    using counted_iff [of e "at e" "now_utc env"] assms that by blast
  have "filter (\<lambda>e. Some (minus_1_day (now_utc env)) < e_created_at e)
          (t_rows (purge_events st))
      = filter (\<lambda>e. int (now_utc env) - 86400 < int (at e)) (t_rows (purge_events st))"
    by (rule filter_cong [OF refl]) (rule c)
  then have "purges_24h (cdn_status env st)
      = length (filter (\<lambda>e. int (now_utc env) - 86400 < int (at e))
          (t_rows (purge_events st)))"
    by (simp only: purges_24h_filter)
  moreover have "\<not> Some (minus_1_day (now_utc env)) < e_created_at e"
    if "e \<in> set (t_rows (purge_events st))" "at e + 90000 = now_utc env" for e
    using c [OF that(1)] that(2) by simp
  moreover have "Some (minus_1_day (now_utc env)) < e_created_at e"
    if "e \<in> set (t_rows (purge_events st))" "at e + 3600 = now_utc env" for e
    using c [OF that(1)] that(2) by simp
  moreover have "Some (minus_1_day (now_utc env)) < e_created_at e"
    if "e \<in> set (t_rows (purge_events st))" "now_utc env \<le> at e" for e
    using c [OF that(1)] that(2) by simp
  ultimately show ?thesis by blast
qed

theorem purges_24h_later_than_cutoff_witness:
  "purges_24h (cdn_status noon fleet) = 1
   \<and> map e_created_at (t_rows (purge_events fleet))
       = [Some ''1970-01-02 11:00:05'', Some ''1970-01-03 11:00:05'']
   \<and> sqlite_datetime (now_utc noon) = ''1970-01-03 12:00:05''"
proof -
  have "\<forall>e \<in> set (t_rows (purge_events fleet)).
      e_created_at e = Some (sqlite_datetime (if e_id e = 1 then 126005 else 212405))
      \<and> in_range (if e_id e = 1 then 126005 else 212405)"
    by (simp add: fleet_def purge_at_def in_range_small)
  moreover have "in_range (now_utc noon)"
    by (simp add: noon_def in_range_small)
  ultimately have "purges_24h (cdn_status noon fleet)
      = length (filter
          (\<lambda>e. int (now_utc noon) - 86400 < int (if e_id e = 1 then 126005 else 212405))
          (t_rows (purge_events fleet)))"
    using purges_24h_later_than_cutoff
      [of fleet "\<lambda>e. if e_id e = 1 then 126005 else 212405" noon]
    by blast
  then have "purges_24h (cdn_status noon fleet) = 1"
    by (simp add: fleet_def purge_at_def noon_def)
  moreover have "map e_created_at (t_rows (purge_events fleet))
       = [Some ''1970-01-02 11:00:05'', Some ''1970-01-03 11:00:05'']"
    by (simp add: fleet_def purge_at_def fleet_purges)
  ultimately show ?thesis
    using noon_utc by (simp add: noon_def)
qed

end
